theory Spec2Isabelle
  imports Complex_Main "HOL-Library.Sublist"
begin

section \<open>SimCLR training: pair construction and the training loop\<close>

text \<open>
  A shallow embedding of \<^verbatim>\<open>simclr/utils/simclr_train_v2.py\<close>.
  A two-dimensional tensor is the list of its rows. Tensor entries are exact reals:
  float32 rounding, overflow and underflow are not represented, so the theory speaks of
  shapes, positions and control flow, not of the values float arithmetic produces.
  Moving a tensor to a device (\<^verbatim>\<open>.to(args.device)\<close>) changes none of these and is left out.
  Every exception the Python can raise is a value of \<open>error\<close>.
\<close>

subsection \<open>Errors\<close>

text \<open>
  \<open>TorchError\<close> is an exception raised inside a call of the tensor library. Which
  Python class it has (\<^verbatim>\<open>RuntimeError\<close>, \<^verbatim>\<open>ValueError\<close>, \<^verbatim>\<open>IndexError\<close>) depends on
  the operation and on the version of the library, which the sources do not fix, and is not
  distinguished. The next four are raised by the Python of this file: \<open>IndexError\<close> by
  \<^verbatim>\<open>xs[0]\<close> on an empty sequence, \<open>ZeroDivisionError\<close> by \<^verbatim>\<open>%\<close> on integers,
  \<open>UnboundLocalError\<close> by reading a local variable never assigned, \<open>TypeError\<close> by
  calling \<^verbatim>\<open>None\<close>. \<open>OSError\<close> and \<open>CommError\<close> are failures a collaborator may
  report (storage, the tracking service).
\<close>

datatype error =
  TorchError | IndexError | ZeroDivisionError | UnboundLocalError | TypeError
  | OSError | CommError

definition bindE :: "error + 'a \<Rightarrow> ('a \<Rightarrow> error + 'b) \<Rightarrow> error + 'b" where
  "bindE r f = (case r of Inl e \<Rightarrow> Inl e | Inr x \<Rightarrow> f x)"

subsection \<open>Configuration\<close>

record args =
  batch_size :: int
  n_views :: int
  temperature :: real
  train_epochs :: int
  log_every_n_steps :: int
  arch :: string
  fp16_precision :: bool
  disable_cuda :: bool

subsection \<open>Tensor operations used by \<open>info_nce_loss\<close>\<close>

text \<open>\<^verbatim>\<open>torch.arange(n)\<close>: the integers below \<open>n\<close>; a negative bound is refused.\<close>

definition arange :: "int \<Rightarrow> error + nat list" where
  "arange n = (if n < 0 then Inl TorchError else Inr [0..<nat n])"

text \<open>\<^verbatim>\<open>torch.cat(ts, dim=0)\<close>: an empty list of tensors is refused (with a
  \<^verbatim>\<open>RuntimeError\<close> or a \<^verbatim>\<open>ValueError\<close>, depending on the version).\<close>

definition cat0 :: "'a list list \<Rightarrow> error + 'a list" where
  "cat0 ts = (if ts = [] then Inl TorchError else Inr (concat ts))"

text \<open>
  \<^verbatim>\<open>[torch.arange(args.batch_size) for _ in range(args.n_views)]\<close>: the body runs
  once per view, so with no view \<open>arange\<close> is never called.
\<close>

definition arange_views :: "int \<Rightarrow> int \<Rightarrow> error + nat list list" where
  "arange_views b n =
     (if n \<le> 0 then Inr []
      else bindE (arange b) (\<lambda>a. Inr (replicate (nat n) a)))"

text \<open>
  \<^verbatim>\<open>(labels.unsqueeze(0) == labels.unsqueeze(1)).float()\<close>: entry \<open>(i, j)\<close> compares
  \<open>labels[j]\<close> with \<open>labels[i]\<close>; \<open>True\<close> becomes \<open>1.0\<close>.
\<close>

definition eq_outer :: "nat list \<Rightarrow> real list list" where
  "eq_outer l = map (\<lambda>a. map (\<lambda>b. of_bool (b = a)) l) l"

text \<open>\<^verbatim>\<open>t.bool()\<close> on a float tensor: nonzero is \<open>True\<close>.\<close>

definition to_bool :: "real list list \<Rightarrow> bool list list" where
  "to_bool t = map (map (\<lambda>x. x \<noteq> 0)) t"

text \<open>\<^verbatim>\<open>~m\<close> on a boolean tensor.\<close>

definition invert :: "bool list list \<Rightarrow> bool list list" where
  "invert m = map (map Not) m"

text \<open>\<^verbatim>\<open>torch.eye(n, dtype=torch.bool)\<close>.\<close>

definition eye :: "nat \<Rightarrow> bool list list" where
  "eye n = map (\<lambda>i. map (\<lambda>j. i = j) [0..<n]) [0..<n]"

text \<open>
  \<^verbatim>\<open>F.normalize(x, dim=1)\<close>: every row is divided by the larger of its Euclidean
  norm and \<open>eps = 1e-12\<close>.
\<close>

definition l2_norm :: "real list \<Rightarrow> real" where
  "l2_norm v = sqrt (sum_list (map (\<lambda>a. a * a) v))"

definition normalize_eps :: real where
  "normalize_eps = 1 / 10 ^ 12"

definition F_normalize :: "real list list \<Rightarrow> real list list" where
  "F_normalize x = map (\<lambda>v. map (\<lambda>a. a / max (l2_norm v) normalize_eps) v) x"

text \<open>\<^verbatim>\<open>torch.matmul(a, b.T)\<close>: entry \<open>(i, j)\<close> is the dot product of row \<open>i\<close> of
  \<open>a\<close> and row \<open>j\<close> of \<open>b\<close>.\<close>

definition dot :: "real list \<Rightarrow> real list \<Rightarrow> real" where
  "dot u v = sum_list (map2 (*) u v)"

definition matmul_T :: "real list list \<Rightarrow> real list list \<Rightarrow> real list list" where
  "matmul_T a b = map (\<lambda>u. map (dot u) b) a"

text \<open>
  \<^verbatim>\<open>x[m]\<close> with a boolean mask: the mask must have the shape of \<open>x\<close>; the result is
  the one-dimensional tensor of the selected entries in row-major order.
\<close>

definition select_row :: "'a list \<Rightarrow> bool list \<Rightarrow> 'a list" where
  "select_row r m = map fst (filter snd (zip r m))"

definition masked_select :: "'a list list \<Rightarrow> bool list list \<Rightarrow> error + 'a list" where
  "masked_select x m =
     (if map length x = map length m
      then Inr (select_row (concat x) (concat m))
      else Inl TorchError)"

text \<open>
  \<^verbatim>\<open>t.view(n, -1)\<close> on a one-dimensional tensor: \<open>n\<close> rows of equal length. It is
  refused when \<open>n = 0\<close> (the free dimension is ambiguous or the size does not fit)
  and when \<open>n\<close> does not divide the number of entries.
\<close>

fun chunks :: "nat \<Rightarrow> nat \<Rightarrow> 'a list \<Rightarrow> 'a list list" where
  "chunks k 0 xs = []"
| "chunks k (Suc n) xs = take k xs # chunks k n (drop k xs)"

definition view_rows :: "nat \<Rightarrow> 'a list \<Rightarrow> error + 'a list list" where
  "view_rows n xs =
     (if n = 0 \<or> length xs mod n \<noteq> 0 then Inl TorchError
      else Inr (chunks (length xs div n) n xs))"

text \<open>\<^verbatim>\<open>torch.cat([a, b], dim=1)\<close>: the tensors must have the same number of rows.\<close>

definition cat1 :: "'a list list \<Rightarrow> 'a list list \<Rightarrow> error + 'a list list" where
  "cat1 a b = (if length a = length b then Inr (map2 (@) a b) else Inl TorchError)"

text \<open>
  \<^verbatim>\<open>logits / args.temperature\<close>: a float division never raises; by zero it gives an
  infinity or NaN, which is no real number.
\<close>

datatype fval = Finite real | NonFinite

definition tdiv :: "real \<Rightarrow> real \<Rightarrow> fval" where
  "tdiv t x = (if t = 0 then NonFinite else Finite (x / t))"

subsection \<open>\<open>info_nce_loss\<close>\<close>

text \<open>Lines 14 to 16: the same-source matrix of the \<open>n_views * batch_size\<close> rows.\<close>

definition source_labels :: "args \<Rightarrow> error + real list list" where
  "source_labels a =
     bindE (arange_views (batch_size a) (n_views a)) (\<lambda>ts.
     bindE (cat0 ts) (\<lambda>labels.
     Inr (eq_outer labels)))"

text \<open>Lines 21 and 22 applied to that matrix: the label mask with the diagonal removed.\<close>

definition label_mask :: "args \<Rightarrow> error + real list list" where
  "label_mask a =
     bindE (source_labels a) (\<lambda>labels.
     bindE (masked_select labels (invert (eye (length labels)))) (view_rows (length labels)))"

definition info_nce_loss :: "real list list \<Rightarrow> args \<Rightarrow> error + (fval list list \<times> nat list)" where
  "info_nce_loss features a =
     bindE (source_labels a) (\<lambda>labels.
     let features = F_normalize features;
         similarity_matrix = matmul_T features features;
         mask = eye (length labels)
     in
     bindE (bindE (masked_select labels (invert mask)) (view_rows (length labels))) (\<lambda>labels.
     bindE (bindE (masked_select similarity_matrix (invert mask))
                  (view_rows (length similarity_matrix))) (\<lambda>similarity_matrix.
     bindE (bindE (masked_select similarity_matrix (to_bool labels))
                  (view_rows (length labels))) (\<lambda>positives.
     bindE (bindE (masked_select similarity_matrix (invert (to_bool labels)))
                  (view_rows (length similarity_matrix))) (\<lambda>negatives.
     bindE (cat1 positives negatives) (\<lambda>logits.
     let labels = replicate (length logits) (0::nat);
         logits = map (map (tdiv (temperature a))) logits
     in Inr (logits, labels)))))))"


subsection \<open>Python values, formatting, indexing\<close>

datatype 's pyval = PyFloat real | PyInt int | PyStr string | PyObj 's

type_synonym 's dict = "(string \<times> 's pyval) list"

text \<open>\<^verbatim>\<open>str(n)\<close> for an integer, \<^verbatim>\<open>'{:04d}'.format(n)\<close> (zero padding to width four,
  the sign included in the width) and \<^verbatim>\<open>str(b)\<close> for a boolean.\<close>

definition digit_char :: "nat \<Rightarrow> char" where
  "digit_char d = ''0123456789'' ! d"

fun str_nat :: "nat \<Rightarrow> string" where
  "str_nat n = (if n < 10 then [digit_char n] else str_nat (n div 10) @ [digit_char (n mod 10)])"

declare str_nat.simps [simp del]

definition str_int :: "int \<Rightarrow> string" where
  "str_int i = (if i < 0 then CHR ''-'' # str_nat (nat (- i)) else str_nat (nat i))"

definition format_04d :: "int \<Rightarrow> string" where
  "format_04d i =
     (let ds = str_nat (nat \<bar>i\<bar>) in
      if i < 0 then CHR ''-'' # replicate (3 - length ds) (CHR ''0'') @ ds
      else replicate (4 - length ds) (CHR ''0'') @ ds)"

definition str_bool :: "bool \<Rightarrow> string" where
  "str_bool b = (if b then ''True'' else ''False'')"

text \<open>\<^verbatim>\<open>xs[0]\<close> and \<^verbatim>\<open>n % k\<close>.\<close>

definition index0 :: "'a list \<Rightarrow> error + 'a" where
  "index0 xs = (case xs of [] \<Rightarrow> Inl IndexError | x # _ \<Rightarrow> Inr x)"

definition py_mod :: "int \<Rightarrow> int \<Rightarrow> error + int" where
  "py_mod n k = (if k = 0 then Inl ZeroDivisionError else Inr (n mod k))"

subsection \<open>Collaborators and the state of a run\<close>

text \<open>
  Every call made for its effect on a collaborator (the gradient scaler, the tracking
  service, the logger, the optimizer, the scheduler, the checkpoint writer). The
  end-of-epoch debug message keeps the three values it formats.
\<close>

datatype 's call =
    GradScaler bool
  | Wandb_init
  | Wandb_watch
  | Logging_basicConfig
  | Save_config_file
  | Logging_info string
  | Optimizer_zero_grad
  | Backward real
  | Scaler_step
  | Scaler_update
  | Wandb_log "'s dict"
  | Scheduler_step
  | Logging_debug nat real real
  | Save_checkpoint "'s dict" bool string
  | Wandb_save string

text \<open>
  The collaborators are parameters. \<open>'w\<close> is the state of the objects outside this
  file (model, optimizer, scheduler, scaler, tracking service), \<open>'x\<close> an image,
  \<open>'s\<close> a state dictionary. \<open>effect\<close> gives the outcome of a call made for
  its effect; \<open>train_loader env e\<close> is the finite sequence of batches of the pass
  over the loader made in epoch \<open>e\<close>. \<open>accuracy\<close> (of
  \<^verbatim>\<open>simclr.utils.evaluate\<close>) is not among the sources and is a parameter too.
\<close>

record ('w, 'x, 's) env =
  effect :: "'s call \<Rightarrow> 'w \<Rightarrow> error + 'w"
  model_forward :: "'w \<Rightarrow> 'x list \<Rightarrow> error + (real list list \<times> 'w)"
  criterion :: "(fval list list \<Rightarrow> nat list \<Rightarrow> error + real) option"
  accuracy :: "fval list list \<Rightarrow> nat list \<Rightarrow> error + (real list \<times> real list)"
  scheduler_get_lr :: "'w \<Rightarrow> error + real list"
  model_state_dict :: "'w \<Rightarrow> error + 's"
  optimizer_state_dict :: "'w \<Rightarrow> error + 's"
  train_loader :: "nat \<Rightarrow> ('x list list \<times> nat) list"

text \<open>
  The state threaded through \<open>train_simclr\<close>: the collaborators' state, the local
  files, the calls made so far with their outcome (\<open>None\<close>: returned normally), and
  the function's local variables that outlive a loop body. \<open>loss\<close> and \<open>top1\<close>
  are unbound until assigned.
\<close>

record ('w, 's) state =
  world :: 'w
  files :: "string \<rightharpoonup> 's dict"
  trace :: "('s call \<times> error option) list"
  n_iter :: int
  loss :: "real option"
  top1 :: "real list option"

type_synonym ('w, 's, 'a) run = "('w, 's) state \<Rightarrow> (error + 'a) \<times> ('w, 's) state"

definition returnM :: "'a \<Rightarrow> ('w, 's, 'a) run" where
  "returnM x = (\<lambda>s. (Inr x, s))"

definition bindM :: "('w, 's, 'a) run \<Rightarrow> ('a \<Rightarrow> ('w, 's, 'b) run) \<Rightarrow> ('w, 's, 'b) run" where
  "bindM m f = (\<lambda>s. case m s of (Inl e, s') \<Rightarrow> (Inl e, s') | (Inr x, s') \<Rightarrow> f x s')"

definition liftE :: "error + 'a \<Rightarrow> ('w, 's, 'a) run" where
  "liftE r = (\<lambda>s. (r, s))"

definition perform :: "('w, 'x, 's) env \<Rightarrow> 's call \<Rightarrow> ('w, 's, unit) run" where
  "perform env c = (\<lambda>s.
     case effect env c (world s) of
       Inl e \<Rightarrow> (Inl e, s\<lparr>trace := trace s @ [(c, Some e)]\<rparr>)
     | Inr w \<Rightarrow> (Inr (), s\<lparr>world := w, trace := trace s @ [(c, None)]\<rparr>))"

definition query :: "('w \<Rightarrow> error + 'a) \<Rightarrow> ('w, 's, 'a) run" where
  "query q = (\<lambda>s. (q (world s), s))"

definition forward :: "('w, 'x, 's) env \<Rightarrow> 'x list \<Rightarrow> ('w, 's, real list list) run" where
  "forward env images = (\<lambda>s.
     case model_forward env (world s) images of
       Inl e \<Rightarrow> (Inl e, s)
     | Inr (features, w) \<Rightarrow> (Inr features, s\<lparr>world := w\<rparr>))"

definition call_criterion ::
  "(fval list list \<Rightarrow> nat list \<Rightarrow> error + real) option \<Rightarrow> fval list list \<Rightarrow> nat list \<Rightarrow> error + real"
where
  "call_criterion c logits labels =
     (case c of None \<Rightarrow> Inl TypeError | Some f \<Rightarrow> f logits labels)"

definition set_n_iter :: "int \<Rightarrow> ('w, 's, unit) run" where
  "set_n_iter n = (\<lambda>s. (Inr (), s\<lparr>n_iter := n\<rparr>))"

definition get_n_iter :: "('w, 's, int) run" where
  "get_n_iter = (\<lambda>s. (Inr (n_iter s), s))"

definition set_loss :: "real \<Rightarrow> ('w, 's, unit) run" where
  "set_loss v = (\<lambda>s. (Inr (), s\<lparr>loss := Some v\<rparr>))"

definition set_top1 :: "real list \<Rightarrow> ('w, 's, unit) run" where
  "set_top1 v = (\<lambda>s. (Inr (), s\<lparr>top1 := Some v\<rparr>))"

definition read_loss :: "('w, 's, real) run" where
  "read_loss = (\<lambda>s. case loss s of None \<Rightarrow> (Inl UnboundLocalError, s) | Some v \<Rightarrow> (Inr v, s))"

definition read_top1 :: "('w, 's, real list) run" where
  "read_top1 = (\<lambda>s. case top1 s of None \<Rightarrow> (Inl UnboundLocalError, s) | Some v \<Rightarrow> (Inr v, s))"

text \<open>
  Modelled from the spec: \<open>save_checkpoint\<close> of \<^verbatim>\<open>simclr.utils.config\<close> is not among
  the sources. The spec has it serialize the record to durable storage, and has a
  write error surface as fatal: the call's outcome is the collaborator's, and on success
  the file of that name holds the record.
\<close>

definition save_checkpoint ::
  "('w, 'x, 's) env \<Rightarrow> 's dict \<Rightarrow> bool \<Rightarrow> string \<Rightarrow> ('w, 's, unit) run" where
  "save_checkpoint env st is_best filename =
     bindM (perform env (Save_checkpoint st is_best filename)) (\<lambda>_.
     (\<lambda>s. (Inr (), s\<lparr>files := (files s)(filename \<mapsto> st)\<rparr>)))"

subsection \<open>\<open>train_simclr\<close>\<close>

text \<open>Lines 69 to 75, after \<open>accuracy\<close> on line 66.\<close>

definition log_metrics ::
  "('w, 'x, 's) env \<Rightarrow> fval list list \<Rightarrow> nat list \<Rightarrow> real \<Rightarrow> int \<Rightarrow> ('w, 's, unit) run" where
  "log_metrics env logits labels l n =
     bindM (liftE (accuracy env logits labels)) (\<lambda>(t1, t5).
     bindM (set_top1 t1) (\<lambda>_.
     bindM (liftE (index0 t1)) (\<lambda>a1.
     bindM (liftE (index0 t5)) (\<lambda>a5.
     bindM (query (scheduler_get_lr env)) (\<lambda>lrs.
     bindM (liftE (index0 lrs)) (\<lambda>lr.
     perform env (Wandb_log
       [(''loss'', PyFloat l), (''acc/top1'', PyFloat a1), (''acc/top5'', PyFloat a5),
        (''learning_rate'', PyFloat lr), (''global_step'', PyInt n)])))))))"

text \<open>Lines 52 to 77: the body of the loop over the batches.\<close>

definition train_step ::
  "('w, 'x, 's) env \<Rightarrow> args \<Rightarrow> 'x list list \<times> nat \<Rightarrow> ('w, 's, unit) run" where
  "train_step env a batch =
     bindM (liftE (cat0 (fst batch))) (\<lambda>images.
     bindM (forward env images) (\<lambda>features.
     bindM (liftE (info_nce_loss features a)) (\<lambda>(logits, labels).
     bindM (liftE (call_criterion (criterion env) logits labels)) (\<lambda>l.
     bindM (set_loss l) (\<lambda>_.
     bindM (perform env Optimizer_zero_grad) (\<lambda>_.
     bindM (perform env (Backward l)) (\<lambda>_.
     bindM (perform env Scaler_step) (\<lambda>_.
     bindM (perform env Scaler_update) (\<lambda>_.
     bindM get_n_iter (\<lambda>n.
     bindM (liftE (py_mod n (log_every_n_steps a))) (\<lambda>r.
     bindM (if r = 0 then log_metrics env logits labels l n else returnM ()) (\<lambda>_.
     set_n_iter (n + 1)))))))))))))"

fun batch_loop ::
  "('w, 'x, 's) env \<Rightarrow> args \<Rightarrow> ('x list list \<times> nat) list \<Rightarrow> ('w, 's, unit) run" where
  "batch_loop env a [] = returnM ()"
| "batch_loop env a (b # bs) = bindM (train_step env a b) (\<lambda>_. batch_loop env a bs)"

text \<open>Lines 51 to 82: one epoch.\<close>

definition train_epoch :: "('w, 'x, 's) env \<Rightarrow> args \<Rightarrow> nat \<Rightarrow> ('w, 's, unit) run" where
  "train_epoch env a epoch_counter =
     bindM (batch_loop env a (train_loader env epoch_counter)) (\<lambda>_.
     bindM (if epoch_counter \<ge> 10 then perform env Scheduler_step else returnM ()) (\<lambda>_.
     bindM read_loss (\<lambda>l.
     bindM read_top1 (\<lambda>t1.
     bindM (liftE (index0 t1)) (\<lambda>a1.
     perform env (Logging_debug epoch_counter l a1))))))"

fun epoch_loop :: "('w, 'x, 's) env \<Rightarrow> args \<Rightarrow> nat list \<Rightarrow> ('w, 's, unit) run" where
  "epoch_loop env a [] = returnM ()"
| "epoch_loop env a (e # es) = bindM (train_epoch env a e) (\<lambda>_. epoch_loop env a es)"

text \<open>Lines 35 to 48.\<close>

definition prelude :: "('w, 'x, 's) env \<Rightarrow> args \<Rightarrow> ('w, 's, unit) run" where
  "prelude env a =
     bindM (perform env (GradScaler (fp16_precision a))) (\<lambda>_.
     bindM (perform env Wandb_init) (\<lambda>_.
     bindM (perform env Wandb_watch) (\<lambda>_.
     bindM (perform env Logging_basicConfig) (\<lambda>_.
     bindM (perform env Save_config_file) (\<lambda>_.
     bindM (set_n_iter 0) (\<lambda>_.
     bindM (perform env (Logging_info
              (''Start SimCLR training for '' @ str_int (train_epochs a) @ '' epochs.''))) (\<lambda>_.
     perform env (Logging_info
              (''Training with gpu: '' @ str_bool (disable_cuda a) @ ''.'')))))))))"

definition checkpoint_name :: "args \<Rightarrow> string" where
  "checkpoint_name a = ''checkpoint_'' @ format_04d (train_epochs a) @ ''.pth.tar''"

text \<open>Lines 84 to 97.\<close>

definition finish :: "('w, 'x, 's) env \<Rightarrow> args \<Rightarrow> ('w, 's, unit) run" where
  "finish env a =
     bindM (perform env (Logging_info ''Training has finished.'')) (\<lambda>_.
     bindM (query (model_state_dict env)) (\<lambda>msd.
     bindM (query (optimizer_state_dict env)) (\<lambda>osd.
     bindM (save_checkpoint env
              [(''epoch'', PyInt (train_epochs a)), (''arch'', PyStr (arch a)),
               (''state_dict'', PyObj msd), (''optimizer'', PyObj osd)]
              False (checkpoint_name a)) (\<lambda>_.
     bindM (perform env (Logging_info ''Model checkpoint and metadata has been saved.'')) (\<lambda>_.
     perform env (Wandb_save (checkpoint_name a)))))))"

text \<open>At entry no call has been made and no local variable is bound
  (\<open>n_iter\<close> is assigned on line 46 before it is read).\<close>

definition init_state :: "'w \<Rightarrow> (string \<rightharpoonup> 's dict) \<Rightarrow> ('w, 's) state" where
  "init_state w fs = \<lparr>world = w, files = fs, trace = [], n_iter = 0, loss = None, top1 = None\<rparr>"

definition train_body :: "('w, 'x, 's) env \<Rightarrow> args \<Rightarrow> ('w, 's, unit) run" where
  "train_body env a =
     bindM (prelude env a) (\<lambda>_.
     bindM (epoch_loop env a [0..<nat (train_epochs a)]) (\<lambda>_.
     finish env a))"

definition train_simclr ::
  "('w, 'x, 's) env \<Rightarrow> args \<Rightarrow> 'w \<Rightarrow> (string \<rightharpoonup> 's dict) \<Rightarrow> (error + unit) \<times> ('w, 's) state" where
  "train_simclr env a w fs = train_body env a (init_state w fs)"

subsection \<open>Notions used to state the properties\<close>

text \<open>Entry \<open>(i, j)\<close> of the similarity matrix of line 20, and the columns of row
  \<open>i\<close> of an \<open>M\<close> by \<open>M\<close> matrix that are off the diagonal, that belong to another view
  of the same image (same index modulo the batch size \<open>B\<close>), and that belong to another
  image.\<close>

definition sim :: "real list list \<Rightarrow> nat \<Rightarrow> nat \<Rightarrow> real" where
  "sim features i j = dot (F_normalize features ! i) (F_normalize features ! j)"

definition other_cols :: "nat \<Rightarrow> nat \<Rightarrow> nat list" where
  "other_cols M i = filter (\<lambda>j. i \<noteq> j) [0..<M]"

definition positive_cols :: "nat \<Rightarrow> nat \<Rightarrow> nat \<Rightarrow> nat list" where
  "positive_cols B M i = filter (\<lambda>j. j mod B = i mod B) (other_cols M i)"

definition negative_cols :: "nat \<Rightarrow> nat \<Rightarrow> nat \<Rightarrow> nat list" where
  "negative_cols B M i = filter (\<lambda>j. j mod B \<noteq> i mod B) (other_cols M i)"

text \<open>\<open>emits m s Q E\<close>: run from \<open>s\<close>, \<open>m\<close> appends calls \<open>evs\<close> to the trace and
  either returns \<open>x\<close> in a state \<open>s'\<close> with \<open>Q x s' evs\<close> or raises \<open>e\<close> in a state
  \<open>s'\<close> with \<open>E e s' evs\<close>.\<close>

definition emits ::
  "('w, 's, 'a) run \<Rightarrow> ('w, 's) state \<Rightarrow>
   ('a \<Rightarrow> ('w, 's) state \<Rightarrow> ('s call \<times> error option) list \<Rightarrow> bool) \<Rightarrow>
   (error \<Rightarrow> ('w, 's) state \<Rightarrow> ('s call \<times> error option) list \<Rightarrow> bool) \<Rightarrow> bool" where
  "emits m s Q E =
     (case m s of
        (Inr x, s') \<Rightarrow> (\<exists>evs. trace s' = trace s @ evs \<and> Q x s' evs)
      | (Inl e, s') \<Rightarrow> (\<exists>evs. trace s' = trace s @ evs \<and> E e s' evs))"

text \<open>
  The calls of a run that the temporal properties speak of: \<open>MStep\<close> is
  \<^verbatim>\<open>scaler.step(optimizer)\<close>, made once in every batch; \<open>MLog ks n\<close> is a
  \<^verbatim>\<open>wandb.log\<close> whose dictionary has the keys \<open>ks\<close>, in order, and the integer \<open>n\<close>
  under \<^verbatim>\<open>'global_step'\<close>; \<open>MSched\<close> is \<^verbatim>\<open>scheduler.step()\<close>; \<open>MEnd e\<close> is the
  \<^verbatim>\<open>logging.debug\<close> that ends epoch \<open>e\<close>. A call is listed whether it returned or
  raised.
\<close>

datatype mark = MStep | MLog "string list" "int option" | MSched | MEnd nat

definition global_step_of :: "'s dict \<Rightarrow> int option" where
  "global_step_of d = (case map_of d ''global_step'' of Some (PyInt n) \<Rightarrow> Some n | _ \<Rightarrow> None)"

fun mark_of :: "'s call \<Rightarrow> mark list" where
  "mark_of Scaler_step = [MStep]"
| "mark_of (Wandb_log d) = [MLog (map fst d) (global_step_of d)]"
| "mark_of Scheduler_step = [MSched]"
| "mark_of (Logging_debug e l t) = [MEnd e]"
| "mark_of _ = []"

definition marks :: "('s call \<times> error option) list \<Rightarrow> mark list" where
  "marks tr = concat (map (\<lambda>(c, r). mark_of c) tr)"

text \<open>The keys of the dictionary of lines 69 to 75, and the marks of the batch run at global
  step \<open>n\<close> when a metric event is due every \<open>K\<close> steps.\<close>

definition metric_keys :: "string list" where
  "metric_keys = [''loss'', ''acc/top1'', ''acc/top5'', ''learning_rate'', ''global_step'']"

definition step_marks :: "int \<Rightarrow> int \<Rightarrow> mark list" where
  "step_marks K n = MStep # (if n mod K = 0 then [MLog metric_keys (Some n)] else [])"

text \<open>\<open>clean\<close>: every call returned. \<open>failing e\<close>: every call returned, except
  possibly the last one, which raised \<open>e\<close>.\<close>

fun clean :: "('s call \<times> error option) list \<Rightarrow> bool" where
  "clean [] = True"
| "clean ((c, r) # evs) = (r = None \<and> clean evs)"

fun failing :: "error \<Rightarrow> ('s call \<times> error option) list \<Rightarrow> bool" where
  "failing e [] = True"
| "failing e ((c, None) # evs) = failing e evs"
| "failing e ((c, Some e') # evs) = (evs = [] \<and> e' = e)"

text \<open>The calls made before line 84, that is all but \<open>save_checkpoint\<close> and
  \<^verbatim>\<open>wandb.save\<close>.\<close>

fun loop_call :: "'s call \<Rightarrow> bool" where
  "loop_call (Save_checkpoint d b f) = False"
| "loop_call (Wandb_save f) = False"
| "loop_call _ = True"

text \<open>The marks of \<open>k\<close> batches from global step \<open>n\<close> on, of epoch \<open>e\<close> and of the
  epochs \<open>es\<close>, where \<open>ld e\<close> is the number of batches of epoch \<open>e\<close>.\<close>

fun steps_marks :: "int \<Rightarrow> int \<Rightarrow> nat \<Rightarrow> mark list" where
  "steps_marks K n 0 = []"
| "steps_marks K n (Suc k) = step_marks K n @ steps_marks K (n + 1) k"

definition epoch_marks :: "int \<Rightarrow> (nat \<Rightarrow> nat) \<Rightarrow> nat \<Rightarrow> int \<Rightarrow> mark list" where
  "epoch_marks K ld e n = steps_marks K n (ld e) @ (if 10 \<le> e then [MSched] else []) @ [MEnd e]"

fun run_marks :: "int \<Rightarrow> (nat \<Rightarrow> nat) \<Rightarrow> nat list \<Rightarrow> int \<Rightarrow> mark list" where
  "run_marks K ld [] n = []"
| "run_marks K ld (e # es) n = epoch_marks K ld e n @ run_marks K ld es (n + int (ld e))"

definition calls_in :: "('s call \<Rightarrow> bool) \<Rightarrow> ('s call \<times> error option) list \<Rightarrow> bool" where
  "calls_in P evs = (\<forall>(c, r) \<in> set evs. P c)"

text \<open>The calls made from line 84 on, and the part of a trace made of the calls of
  \<open>save_checkpoint\<close> and \<^verbatim>\<open>wandb.save\<close>.\<close>

fun fin_call :: "'s call \<Rightarrow> bool" where
  "fin_call (Logging_info m) = True"
| "fin_call (Save_checkpoint d b f) = True"
| "fin_call (Wandb_save f) = True"
| "fin_call _ = False"

definition fin_view :: "('s call \<times> error option) list \<Rightarrow> ('s call \<times> error option) list" where
  "fin_view evs = filter (\<lambda>(c, r). \<not> loop_call c) evs"

text \<open>The record of lines 87 to 91.\<close>

definition checkpoint_state :: "args \<Rightarrow> 's \<Rightarrow> 's \<Rightarrow> 's dict" where
  "checkpoint_state a msd osd =
     [(''epoch'', PyInt (train_epochs a)), (''arch'', PyStr (arch a)),
      (''state_dict'', PyObj msd), (''optimizer'', PyObj osd)]"

text \<open>What lines 84 to 97 do to the files \<open>fs\<close> when they return, and when they raise
  \<open>e\<close>: before the checkpoint call, in it, between it and \<^verbatim>\<open>wandb.save\<close>, or in
  \<^verbatim>\<open>wandb.save\<close>.\<close>

definition finish_ok ::
  "('w, 'x, 's) env \<Rightarrow> args \<Rightarrow> (string \<rightharpoonup> 's dict) \<Rightarrow> ('s call \<times> error option) list \<Rightarrow>
   (string \<rightharpoonup> 's dict) \<Rightarrow> bool" where
  "finish_ok env a fs evs fs' =
     (\<exists>w' msd osd.
        model_state_dict env w' = Inr msd \<and> optimizer_state_dict env w' = Inr osd \<and>
        fin_view evs = [(Save_checkpoint (checkpoint_state a msd osd) False (checkpoint_name a), None),
                        (Wandb_save (checkpoint_name a), None)]
        \<and> fs' = fs(checkpoint_name a \<mapsto> checkpoint_state a msd osd))"

definition finish_failed ::
  "('w, 'x, 's) env \<Rightarrow> args \<Rightarrow> error \<Rightarrow> (string \<rightharpoonup> 's dict) \<Rightarrow> ('s call \<times> error option) list \<Rightarrow>
   (string \<rightharpoonup> 's dict) \<Rightarrow> bool" where
  "finish_failed env a e fs evs fs' =
     ((fin_view evs = [] \<and> fs' = fs) \<or>
      (\<exists>w' msd osd.
         model_state_dict env w' = Inr msd \<and> optimizer_state_dict env w' = Inr osd \<and>
         ((fin_view evs = [(Save_checkpoint (checkpoint_state a msd osd) False (checkpoint_name a), Some e)]
           \<and> fs' = fs) \<or>
          (fin_view evs = [(Save_checkpoint (checkpoint_state a msd osd) False (checkpoint_name a), None)]
           \<and> fs' = fs(checkpoint_name a \<mapsto> checkpoint_state a msd osd)) \<or>
          (fin_view evs = [(Save_checkpoint (checkpoint_state a msd osd) False (checkpoint_name a), None),
                          (Wandb_save (checkpoint_name a), Some e)]
           \<and> fs' = fs(checkpoint_name a \<mapsto> checkpoint_state a msd osd)))))"

text \<open>The marks of a whole run that returns.\<close>

definition all_marks :: "('w, 'x, 's) env \<Rightarrow> args \<Rightarrow> mark list" where
  "all_marks env a =
     run_marks (log_every_n_steps a) (\<lambda>e. length (train_loader env e)) [0..<nat (train_epochs a)] 0"

text \<open>A configuration and a feature tensor used to instantiate the properties:
  two views of two images, embeddings of dimension two.\<close>

definition args0 :: args where
  "args0 = \<lparr>batch_size = 2, n_views = 2, temperature = 1 / 2, train_epochs = 1,
            log_every_n_steps = 1, arch = ''resnet18'', fp16_precision = False,
            disable_cuda = True\<rparr>"

definition features0 :: "real list list" where
  "features0 = [[1, 0], [0, 1], [1, 0], [0, 1]]"

definition args_single :: args where
  "args_single = \<lparr>batch_size = 2, n_views = 1, temperature = 1, train_epochs = 1,
            log_every_n_steps = 1, arch = ''resnet18'', fp16_precision = False,
            disable_cuda = True\<rparr>"

definition args_no_view :: args where
  "args_no_view = \<lparr>batch_size = 2, n_views = 0, temperature = 1, train_epochs = 1,
            log_every_n_steps = 1, arch = ''resnet18'', fp16_precision = False,
            disable_cuda = True\<rparr>"

text \<open>The marks that are no metric event, and the marks of the batches.\<close>

fun is_log :: "mark \<Rightarrow> bool" where
  "is_log (MLog ks n) = True"
| "is_log _ = False"

fun step_or_log :: "mark \<Rightarrow> bool" where
  "step_or_log MStep = True"
| "step_or_log (MLog ks n) = True"
| "step_or_log _ = False"

text \<open>
  What epoch \<open>e\<close> contributes once the metric events are left out, when its pass over
  the loader has \<open>ld e\<close> batches: the optimizer steps, the scheduler step of an epoch
  past the warm-up, the closing debug log.
\<close>

definition epoch_schedule :: "(nat \<Rightarrow> nat) \<Rightarrow> nat \<Rightarrow> mark list" where
  "epoch_schedule ld e = replicate (ld e) MStep @ (if 10 \<le> e then [MSched] else []) @ [MEnd e]"

text \<open>The number of batches of all the epochs of a run.\<close>

definition batches_total :: "('w, 'x, 's) env \<Rightarrow> args \<Rightarrow> nat" where
  "batches_total env a = sum_list (map (\<lambda>e. length (train_loader env e)) [0..<nat (train_epochs a)])"


text \<open>
  Collaborators used to instantiate the properties of \<open>train_simclr\<close>: two views of one
  image per batch, a model that returns two one-dimensional embeddings, a criterion that
  returns \<open>0\<close>. The outcome of the calls made for their effect and the loader are left
  open: every call succeeds (\<open>all_up\<close>), \<^verbatim>\<open>wandb.save\<close> fails (\<open>mirror_down\<close>) or
  \<^verbatim>\<open>wandb.log\<close> fails (\<open>tracking_down\<close>); one batch in every epoch or none. The
  configuration has eleven epochs and logs every second step.
\<close>

definition args_run :: args where
  "args_run = \<lparr>batch_size = 1, n_views = 2, temperature = 1 / 2, train_epochs = 11,
            log_every_n_steps = 2, arch = ''resnet18'', fp16_precision = False,
            disable_cuda = True\<rparr>"

definition batch_run :: "unit list list \<times> nat" where
  "batch_run = ([[()], [()]], 0)"

definition stub_env ::
  "(unit call \<Rightarrow> unit \<Rightarrow> error + unit) \<Rightarrow> (nat \<Rightarrow> (unit list list \<times> nat) list) \<Rightarrow> (unit, unit, unit) env" where
  "stub_env eff ld =
     \<lparr>effect = eff,
      model_forward = (\<lambda>w images. Inr ([[1], [1]], w)),
      criterion = Some (\<lambda>logits labels. Inr 0),
      accuracy = (\<lambda>logits labels. Inr ([1], [1])),
      scheduler_get_lr = (\<lambda>w. Inr [1]),
      model_state_dict = (\<lambda>w. Inr ()),
      optimizer_state_dict = (\<lambda>w. Inr ()),
      train_loader = ld\<rparr>"

definition all_up :: "unit call \<Rightarrow> unit \<Rightarrow> error + unit" where
  "all_up c w = Inr w"


fun tracking_down :: "unit call \<Rightarrow> unit \<Rightarrow> error + unit" where
  "tracking_down (Wandb_log d) w = Inl CommError"
| "tracking_down c w = Inr w"

definition one_batch :: "nat \<Rightarrow> (unit list list \<times> nat) list" where
  "one_batch e = [batch_run]"

definition no_batch :: "nat \<Rightarrow> (unit list list \<times> nat) list" where
  "no_batch e = []"

section \<open>Auxiliary facts\<close>

lemma concat_replicate_snoc: "concat (replicate (Suc n) xs) = concat (replicate n xs) @ xs"
  by (induction n) simp_all

lemma concat_replicate_upt:
  "concat (replicate n [0..<b]) = map (\<lambda>i. i mod b) [0..<n * b]"
proof (induction n)
  case 0
  then show ?case by simp
next
  case (Suc n)
  have split: "[0..<Suc n * b] = [0..<n * b] @ [n * b..<n * b + b]"
    using upt_add_eq_append[of 0 "n * b" b] by (simp add: add.commute)
  have tail: "map (\<lambda>i. i mod b) [n * b..<n * b + b] = [0..<b]"
    by (rule nth_equalityI) simp_all
  show ?case
    unfolding concat_replicate_snoc split map_append Suc.IH tail ..
qed

lemma select_row_map: "select_row (map f xs) (map P xs) = map f (filter P xs)"
  by (induction xs) (simp_all add: select_row_def)

lemma select_row_concat:
  "map length x = map length m \<Longrightarrow>
   select_row (concat x) (concat m) = concat (map2 select_row x m)"
proof (induction x arbitrary: m)
  case Nil
  then show ?case by (simp add: select_row_def)
next
  case (Cons r x)
  then obtain q m' where m: "m = q # m'" by (cases m) auto
  with Cons.prems have len: "length r = length q" and rest: "map length x = map length m'"
    by simp_all
  from Cons.IH[OF rest] len show ?case
    by (simp add: m select_row_def)
qed

lemma chunks_concat:
  "\<forall>xs \<in> set xss. length xs = k \<Longrightarrow> chunks k (length xss) (concat xss) = xss"
  by (induction xss) simp_all

lemma length_concat_uniform:
  "\<forall>xs \<in> set xss. length xs = k \<Longrightarrow> length (concat xss) = length xss * k"
  by (induction xss) simp_all

lemma view_rows_concat:
  assumes "xss \<noteq> []" and "\<forall>xs \<in> set xss. length xs = k"
  shows "view_rows (length xss) (concat xss) = Inr xss"
proof -
  have len: "length (concat xss) = length xss * k"
    using assms(2) by (rule length_concat_uniform)
  from assms(1) have pos: "0 < length xss" by simp
  show ?thesis
    unfolding view_rows_def len using pos chunks_concat[OF assms(2)] by simp
qed

lemma masked_view:
  assumes "0 < M" and "\<And>i. i < M \<Longrightarrow> length (filter (P i) (js i)) = k"
  shows "bindE (masked_select (map (\<lambda>i. map (f i) (js i)) [0..<M])
                              (map (\<lambda>i. map (P i) (js i)) [0..<M]))
               (view_rows M)
         = Inr (map (\<lambda>i. map (f i) (filter (P i) (js i))) [0..<M])"
proof -
  let ?x = "map (\<lambda>i. map (f i) (js i)) [0..<M]"
  let ?m = "map (\<lambda>i. map (P i) (js i)) [0..<M]"
  let ?r = "map (\<lambda>i. map (f i) (filter (P i) (js i))) [0..<M]"
  have shape: "map length ?x = map length ?m" by simp
  have "map2 select_row ?x ?m = ?r"
    by (simp add: zip_map_map zip_same_conv_map select_row_map)
  then have sel: "masked_select ?x ?m = Inr (concat ?r)"
    using select_row_concat[OF shape] by (simp add: masked_select_def)
  have "view_rows (length ?r) (concat ?r) = Inr ?r"
    by (rule view_rows_concat[where k = k]) (use assms in auto)
  then show ?thesis by (simp add: sel bindE_def)
qed

lemma filter_eq_upt: "r < b \<Longrightarrow> filter (\<lambda>v. v = r) [0..<b] = [r]"
  by (induction b) (auto simp: less_Suc_eq filter_empty_conv)

lemma length_filter_eq_upt: "r < b \<Longrightarrow> length (filter (\<lambda>v. v = r) [0..<b]) = 1"
  by (simp add: filter_eq_upt)

lemma length_filter_concat_replicate:
  "length (filter P (concat (replicate n xs))) = n * length (filter P xs)"
  by (induction n) simp_all

lemma count_same_source:
  assumes "r < b"
  shows "length (filter (\<lambda>j. j mod b = r) [0..<n * b]) = n"
proof -
  have "length (filter (\<lambda>j. j mod b = r) [0..<n * b])
        = length (filter (\<lambda>v. v = r) (map (\<lambda>j. j mod b) [0..<n * b]))"
    by (simp add: filter_map comp_def)
  also have "\<dots> = n * length (filter (\<lambda>v. v = r) [0..<b])"
    by (simp only: concat_replicate_upt[symmetric] length_filter_concat_replicate)
  finally show ?thesis using length_filter_eq_upt[OF assms] by simp
qed

lemma length_filter_split:
  "length (filter P xs) =
   length (filter (\<lambda>x. P x \<and> Q x) xs) + length (filter (\<lambda>x. P x \<and> \<not> Q x) xs)"
  by (induction xs) simp_all

lemma length_other_cols: "i < M \<Longrightarrow> length (other_cols M i) = M - 1"
proof -
  assume i: "i < M"
  have "length (filter (\<lambda>j. True) [0..<M]) =
        length (filter (\<lambda>j. True \<and> i \<noteq> j) [0..<M]) + length (filter (\<lambda>j. True \<and> \<not> i \<noteq> j) [0..<M])"
    by (rule length_filter_split)
  moreover have "filter (\<lambda>j. True \<and> \<not> i \<noteq> j) [0..<M] = filter (\<lambda>v. v = i) [0..<M]"
    by (rule filter_cong) auto
  ultimately show ?thesis
    using length_filter_eq_upt[OF i] by (simp add: other_cols_def)
qed

lemma length_positive_cols:
  assumes "0 < b" "i < n * b"
  shows "length (positive_cols b (n * b) i) = n - 1"
proof -
  let ?P = "\<lambda>j. j mod b = i mod b"
  have "length (filter ?P [0..<n * b]) =
        length (filter (\<lambda>j. ?P j \<and> i \<noteq> j) [0..<n * b]) +
        length (filter (\<lambda>j. ?P j \<and> \<not> i \<noteq> j) [0..<n * b])"
    by (rule length_filter_split)
  moreover have "filter (\<lambda>j. ?P j \<and> \<not> i \<noteq> j) [0..<n * b] = filter (\<lambda>v. v = i) [0..<n * b]"
    by (rule filter_cong) auto
  moreover have "length (filter ?P [0..<n * b]) = n"
    using assms(1) by (intro count_same_source) simp
  moreover have "filter (\<lambda>j. ?P j \<and> i \<noteq> j) [0..<n * b] = positive_cols b (n * b) i"
    by (simp add: positive_cols_def other_cols_def conj_commute)
  ultimately show ?thesis
    using length_filter_eq_upt[OF assms(2)] by simp
qed

lemma length_negative_cols:
  assumes "0 < b" "i < n * b"
  shows "length (negative_cols b (n * b) i) = n * b - n"
proof -
  have "length (positive_cols b (n * b) i) + length (negative_cols b (n * b) i)
        = length (other_cols (n * b) i)"
    unfolding positive_cols_def negative_cols_def by (rule sum_length_filter_compl)
  moreover from assms have "0 < n" by (cases n) simp_all
  ultimately show ?thesis
    using length_positive_cols[OF assms] length_other_cols[OF assms(2)] by simp
qed

lemma map_by_index: "map f xs = map (\<lambda>i. f (xs ! i)) [0..<length xs]"
proof -
  have "map f xs = map f (map (\<lambda>i. xs ! i) [0..<length xs])"
    by (simp only: map_nth)
  then show ?thesis by (simp add: comp_def)
qed

lemma matmul_T_index:
  "matmul_T x x = map (\<lambda>i. map (\<lambda>j. dot (x ! i) (x ! j)) [0..<length x]) [0..<length x]"
proof -
  have "matmul_T x x = map (\<lambda>i. map (dot (x ! i)) x) [0..<length x]"
    unfolding matmul_T_def by (rule map_by_index)
  also have "\<dots> = map (\<lambda>i. map (\<lambda>j. dot (x ! i) (x ! j)) [0..<length x]) [0..<length x]"
    by (rule map_cong[OF refl]) (rule map_by_index)
  finally show ?thesis .
qed

lemma source_labels_ok:
  assumes "1 \<le> n_views a" "0 \<le> batch_size a"
  shows "source_labels a =
         Inr (map (\<lambda>i. map (\<lambda>j. of_bool (j mod nat (batch_size a) = i mod nat (batch_size a)))
                          [0..<nat (n_views a) * nat (batch_size a)])
                  [0..<nat (n_views a) * nat (batch_size a)])"
proof -
  from assms(1) have "replicate (nat (n_views a)) [0..<nat (batch_size a)] \<noteq> []" by simp
  with assms show ?thesis
    by (simp add: source_labels_def arange_views_def arange_def cat0_def bindE_def eq_outer_def
        concat_replicate_upt comp_def)
qed

lemma info_nce_loss_char:
  assumes n: "1 \<le> n_views a" and b: "1 \<le> batch_size a"
    and len: "length features = nat (n_views a) * nat (batch_size a)"
  shows "info_nce_loss features a =
         Inr (map (\<lambda>i. map (tdiv (temperature a))
                      (map (sim features i) (positive_cols (nat (batch_size a)) (length features) i) @
                       map (sim features i) (negative_cols (nat (batch_size a)) (length features) i)))
                  [0..<length features],
              replicate (length features) 0)"
proof -
  define B where "B = nat (batch_size a)"
  define N where "N = nat (n_views a)"
  define M where "M = N * B"
  have Bpos: "0 < B" and Npos: "0 < N" using n b by (simp_all add: B_def N_def)
  then have Mpos: "0 < M" by (simp add: M_def)
  have lenM: "length features = M" using len by (simp add: M_def N_def B_def)
  define L where "L = map (\<lambda>i. map (\<lambda>j. of_bool (j mod B = i mod B) :: real) [0..<M]) [0..<M]"
  have src: "source_labels a = Inr L"
    using source_labels_ok[of a] n b by (simp add: L_def M_def N_def B_def)
  define S where "S = sim features"
  have simM: "matmul_T (F_normalize features) (F_normalize features)
              = map (\<lambda>i. map (S i) [0..<M]) [0..<M]"
    using matmul_T_index[of "F_normalize features"] lenM
    by (simp add: S_def sim_def[abs_def] F_normalize_def)
  have inv_eye: "invert (eye M) = map (\<lambda>i. map (\<lambda>j. i \<noteq> j) [0..<M]) [0..<M]"
    by (simp add: invert_def eye_def comp_def)
  define L' where "L' = map (\<lambda>i. map (\<lambda>j. of_bool (j mod B = i mod B) :: real) (other_cols M i)) [0..<M]"
  define S' where "S' = map (\<lambda>i. map (S i) (other_cols M i)) [0..<M]"
  have oth: "\<And>i. i < M \<Longrightarrow> length (filter (\<lambda>j. i \<noteq> j) [0..<M]) = M - 1"
    using length_other_cols by (simp add: other_cols_def)
  have step22: "bindE (masked_select L (invert (eye M))) (view_rows M) = Inr L'"
    unfolding L_def inv_eye L'_def other_cols_def
    by (rule masked_view[OF Mpos oth])
  have step23: "bindE (masked_select (map (\<lambda>i. map (S i) [0..<M]) [0..<M]) (invert (eye M))) (view_rows M) = Inr S'"
    unfolding inv_eye S'_def other_cols_def
    by (rule masked_view[OF Mpos oth])
  have tb: "to_bool L' = map (\<lambda>i. map (\<lambda>j. j mod B = i mod B) (other_cols M i)) [0..<M]"
    by (simp add: to_bool_def L'_def comp_def)
  have itb: "invert (to_bool L') = map (\<lambda>i. map (\<lambda>j. j mod B \<noteq> i mod B) (other_cols M i)) [0..<M]"
    by (simp add: tb invert_def comp_def)
  have pos: "\<And>i. i < M \<Longrightarrow> length (filter (\<lambda>j. j mod B = i mod B) (other_cols M i)) = N - 1"
    using length_positive_cols[OF Bpos] by (simp add: M_def positive_cols_def)
  have neg: "\<And>i. i < M \<Longrightarrow> length (filter (\<lambda>j. j mod B \<noteq> i mod B) (other_cols M i)) = M - N"
    using length_negative_cols[OF Bpos] by (simp add: M_def negative_cols_def)
  define P where "P = map (\<lambda>i. map (S i) (positive_cols B M i)) [0..<M]"
  define Q where "Q = map (\<lambda>i. map (S i) (negative_cols B M i)) [0..<M]"
  have step25: "bindE (masked_select S' (to_bool L')) (view_rows M) = Inr P"
    unfolding tb S'_def P_def positive_cols_def
    by (rule masked_view[OF Mpos pos])
  have step26: "bindE (masked_select S' (invert (to_bool L'))) (view_rows M) = Inr Q"
    unfolding itb S'_def Q_def negative_cols_def
    by (rule masked_view[OF Mpos neg])
  have step28: "cat1 P Q = Inr (map (\<lambda>i. map (S i) (positive_cols B M i) @ map (S i) (negative_cols B M i)) [0..<M])"
    by (simp add: cat1_def P_def Q_def zip_map_map zip_same_conv_map)
  have lens: "length L = M" "length L' = M" "length S' = M"
    by (simp_all add: L_def L'_def S'_def)
  show ?thesis
    unfolding info_nce_loss_def src
    apply (subst bindE_def)
    apply (simp only: sum.case Let_def simM lens length_map length_upt diff_zero step22 step23)
    apply (subst bindE_def)
    apply (simp only: sum.case lens step23)
    apply (subst bindE_def)
    apply (simp only: sum.case lens step25)
    apply (subst bindE_def)
    apply (simp only: sum.case lens step26)
    apply (subst bindE_def)
    apply (simp only: sum.case lens step28)
    apply (subst bindE_def)
    apply (simp add: lenM S_def B_def)
    done
qed

lemma emits_bindM:
  assumes "emits m s (\<lambda>x s1 evs1. emits (f x) s1 (\<lambda>y s2 evs2. Q y s2 (evs1 @ evs2))
                                                  (\<lambda>e s2 evs2. E e s2 (evs1 @ evs2))) E"
  shows "emits (bindM m f) s Q E"
proof (cases "m s")
  case (Pair r s1)
  show ?thesis
  proof (cases r)
    case (Inl e)
    with Pair assms show ?thesis by (simp add: emits_def bindM_def)
  next
    case (Inr x)
    with Pair assms obtain evs1 where t1: "trace s1 = trace s @ evs1"
      and inner: "emits (f x) s1 (\<lambda>y s2 evs2. Q y s2 (evs1 @ evs2)) (\<lambda>e s2 evs2. E e s2 (evs1 @ evs2))"
      by (auto simp: emits_def)
    obtain r2 s2 where f: "f x s1 = (r2, s2)" by (cases "f x s1")
    have b: "bindM m f s = (r2, s2)" using Pair Inr f by (simp add: bindM_def)
    show ?thesis
      using inner f t1 unfolding emits_def b
      by (cases r2) auto
  qed
qed

lemma emits_liftE:
  assumes "\<And>x. r = Inr x \<Longrightarrow> Q x s []" and "\<And>e. r = Inl e \<Longrightarrow> E e s []"
  shows "emits (liftE r) s Q E"
  using assms by (auto simp: emits_def liftE_def split: sum.splits)

lemma emits_returnM:
  assumes "Q x s []"
  shows "emits (returnM x) s Q E"
  using assms by (auto simp: emits_def returnM_def)

lemma emits_query:
  assumes "\<And>x. q (world s) = Inr x \<Longrightarrow> Q x s []" and "\<And>e. E e s []"
  shows "emits (query q) s Q E"
  using assms by (auto simp: emits_def query_def split: sum.splits)

lemma emits_perform:
  assumes "\<And>w. Q () (s\<lparr>world := w, trace := trace s @ [(c, None)]\<rparr>) [(c, None)]"
    and "\<And>e. E e (s\<lparr>trace := trace s @ [(c, Some e)]\<rparr>) [(c, Some e)]"
  shows "emits (perform env c) s Q E"
  using assms by (auto simp: emits_def perform_def split: sum.splits)

lemma emits_forward:
  assumes "\<And>x w. Q x (s\<lparr>world := w\<rparr>) []" and "\<And>e. E e s []"
  shows "emits (forward env images) s Q E"
  using assms by (auto simp: emits_def forward_def split: sum.splits prod.splits)

lemma emits_set_n_iter:
  assumes "Q () (s\<lparr>n_iter := n\<rparr>) []"
  shows "emits (set_n_iter n) s Q E"
  using assms by (auto simp: emits_def set_n_iter_def)

lemma emits_get_n_iter:
  assumes "Q (n_iter s) s []"
  shows "emits get_n_iter s Q E"
  using assms by (auto simp: emits_def get_n_iter_def)

lemma emits_set_loss:
  assumes "Q () (s\<lparr>loss := Some v\<rparr>) []"
  shows "emits (set_loss v) s Q E"
  using assms by (auto simp: emits_def set_loss_def)

lemma emits_set_top1:
  assumes "Q () (s\<lparr>top1 := Some v\<rparr>) []"
  shows "emits (set_top1 v) s Q E"
  using assms by (auto simp: emits_def set_top1_def)

lemma emits_read_loss:
  assumes "\<And>v. loss s = Some v \<Longrightarrow> Q v s []" and "loss s = None \<Longrightarrow> E UnboundLocalError s []"
  shows "emits read_loss s Q E"
  using assms by (auto simp: emits_def read_loss_def split: option.splits)

lemma emits_read_top1:
  assumes "\<And>v. top1 s = Some v \<Longrightarrow> Q v s []" and "top1 s = None \<Longrightarrow> E UnboundLocalError s []"
  shows "emits read_top1 s Q E"
  using assms by (auto simp: emits_def read_top1_def split: option.splits)

lemma emits_if:
  assumes "b \<Longrightarrow> emits m1 s Q E" and "\<not> b \<Longrightarrow> emits m2 s Q E"
  shows "emits (if b then m1 else m2) s Q E"
  using assms by simp

lemma emits_case_prod:
  assumes "\<And>x y. p = (x, y) \<Longrightarrow> emits (f x y) s Q E"
  shows "emits (case p of (x, y) \<Rightarrow> f x y) s Q E"
  using assms by (cases p) simp

lemma emits_weaken:
  assumes "emits m s Q E" and "\<And>x s' evs. Q x s' evs \<Longrightarrow> Q' x s' evs"
    and "\<And>e s' evs. E e s' evs \<Longrightarrow> E' e s' evs"
  shows "emits m s Q' E'"
  using assms by (auto simp: emits_def split: prod.splits sum.splits)

lemma emitsD:
  assumes "emits m s Q E" and "m s = (r, s')"
  shows "\<exists>evs. trace s' = trace s @ evs \<and> (case r of Inr x \<Rightarrow> Q x s' evs | Inl e \<Rightarrow> E e s' evs)"
  using assms by (auto simp: emits_def split: sum.splits)

lemmas emits_rules = emits_bindM emits_liftE emits_returnM emits_query emits_perform emits_forward
  emits_set_n_iter emits_get_n_iter emits_set_loss emits_set_top1 emits_read_loss emits_read_top1
  emits_if emits_case_prod

lemma marks_simps [simp]: "marks [] = []" "marks ((c, r) # tr) = mark_of c @ marks tr"
  "marks (xs @ ys) = marks xs @ marks ys"
  by (simp_all add: marks_def)

lemma clean_append [simp]: "clean (xs @ ys) = (clean xs \<and> clean ys)"
  by (induction xs rule: clean.induct) simp_all

lemma clean_failing [simp]: "clean evs \<Longrightarrow> failing e evs"
  by (induction evs rule: clean.induct) simp_all

lemma failing_append: "clean xs \<Longrightarrow> failing e (xs @ ys) = failing e ys"
  by (induction xs rule: clean.induct) simp_all

lemma train_step_emits:
  "emits (train_step env a b) s
     (\<lambda>_ s' evs. marks evs = step_marks (log_every_n_steps a) (n_iter s) \<and> n_iter s' = n_iter s + 1
        \<and> loss s' \<noteq> None \<and> (n_iter s mod log_every_n_steps a = 0 \<longrightarrow> top1 s' \<noteq> None)
        \<and> (top1 s \<noteq> None \<longrightarrow> top1 s' \<noteq> None) \<and> files s' = files s
        \<and> clean evs \<and> (\<forall>(c, r) \<in> set evs. loop_call c))
     (\<lambda>e s' evs. prefix (marks evs) (step_marks (log_every_n_steps a) (n_iter s))
        \<and> files s' = files s \<and> failing e evs \<and> (\<forall>(c, r) \<in> set evs. loop_call c))"
  unfolding train_step_def log_metrics_def
  apply (intro emits_rules)
  apply (auto simp: step_marks_def py_mod_def metric_keys_def global_step_of_def split: if_splits)
  done

lemma calls_in_simps [simp]: "calls_in P []" "calls_in P ((c, r) # evs) = (P c \<and> calls_in P evs)"
  "calls_in P (xs @ ys) = (calls_in P xs \<and> calls_in P ys)"
  by (auto simp: calls_in_def)

lemma train_step_emits2:
  "emits (train_step env a b) s
     (\<lambda>_ s' evs. marks evs = step_marks (log_every_n_steps a) (n_iter s) \<and> n_iter s' = n_iter s + 1
        \<and> files s' = files s \<and> clean evs \<and> calls_in loop_call evs)
     (\<lambda>e s' evs. prefix (marks evs) (step_marks (log_every_n_steps a) (n_iter s))
        \<and> files s' = files s \<and> failing e evs \<and> calls_in loop_call evs)"
  unfolding train_step_def log_metrics_def
  apply (intro emits_rules)
  apply (auto simp: step_marks_def py_mod_def metric_keys_def global_step_of_def split: if_splits)
  done

lemma batch_loop_emits:
  "emits (batch_loop env a bs) s
     (\<lambda>_ s' evs. marks evs = steps_marks (log_every_n_steps a) (n_iter s) (length bs)
        \<and> n_iter s' = n_iter s + int (length bs)
        \<and> files s' = files s \<and> clean evs \<and> calls_in loop_call evs)
     (\<lambda>e s' evs. prefix (marks evs) (steps_marks (log_every_n_steps a) (n_iter s) (length bs))
        \<and> files s' = files s \<and> failing e evs \<and> calls_in loop_call evs)"
proof (induction bs arbitrary: s)
  case Nil
  show ?case by (simp add: emits_returnM)
next
  case (Cons b bs)
  show ?case
    unfolding batch_loop.simps
    apply (rule emits_bindM)
    apply (rule emits_weaken[OF train_step_emits2])
     apply (rule emits_weaken[OF Cons.IH])
      apply (auto simp: failing_append)
    done
qed

lemma train_epoch_emits:
  "emits (train_epoch env a e) s
     (\<lambda>_ s' evs. marks evs = epoch_marks (log_every_n_steps a) (\<lambda>e. length (train_loader env e)) e (n_iter s)
        \<and> n_iter s' = n_iter s + int (length (train_loader env e))
        \<and> files s' = files s \<and> clean evs \<and> calls_in loop_call evs)
     (\<lambda>er s' evs. prefix (marks evs) (epoch_marks (log_every_n_steps a) (\<lambda>e. length (train_loader env e)) e (n_iter s))
        \<and> files s' = files s \<and> failing er evs \<and> calls_in loop_call evs)"
  unfolding train_epoch_def
  apply (rule emits_bindM)
  apply (rule emits_weaken[OF batch_loop_emits])
   apply (intro emits_rules)
  apply (auto simp: epoch_marks_def failing_append)
  done

lemma epoch_loop_emits:
  "emits (epoch_loop env a es) s
     (\<lambda>_ s' evs. marks evs = run_marks (log_every_n_steps a) (\<lambda>e. length (train_loader env e)) es (n_iter s)
        \<and> files s' = files s \<and> clean evs \<and> calls_in loop_call evs)
     (\<lambda>er s' evs. prefix (marks evs) (run_marks (log_every_n_steps a) (\<lambda>e. length (train_loader env e)) es (n_iter s))
        \<and> files s' = files s \<and> failing er evs \<and> calls_in loop_call evs)"
proof (induction es arbitrary: s)
  case Nil
  show ?case by (simp add: emits_returnM)
next
  case (Cons e es)
  show ?case
    unfolding epoch_loop.simps
    apply (rule emits_bindM)
    apply (rule emits_weaken[OF train_epoch_emits])
     apply (rule emits_weaken[OF Cons.IH])
      apply (auto simp: failing_append)
    done
qed

lemma fin_view_simps [simp]: "fin_view [] = []"
  "fin_view ((c, r) # evs) = (if loop_call c then fin_view evs else (c, r) # fin_view evs)"
  "fin_view (xs @ ys) = fin_view xs @ fin_view ys"
  by (simp_all add: fin_view_def)

lemma fin_view_loop_calls: "calls_in loop_call evs \<Longrightarrow> fin_view evs = []"
  by (induction evs) (auto simp: fin_view_def calls_in_def)

lemma emits_write_file:
  assumes "Q () (s\<lparr>files := (files s)(f \<mapsto> d)\<rparr>) []"
  shows "emits (\<lambda>s. (Inr (), s\<lparr>files := (files s)(f \<mapsto> d)\<rparr>)) s Q E"
  using assms by (simp add: emits_def)

lemma prelude_emits:
  "emits (prelude env a) s
     (\<lambda>_ s' evs. marks evs = [] \<and> n_iter s' = 0 \<and> loss s' = loss s \<and> top1 s' = top1 s
        \<and> files s' = files s \<and> clean evs \<and> calls_in loop_call evs)
     (\<lambda>e s' evs. marks evs = [] \<and> files s' = files s \<and> failing e evs \<and> calls_in loop_call evs)"
  unfolding prelude_def
  apply (intro emits_rules)
  apply auto
  done

lemma finish_emits:
  "emits (finish env a) s
     (\<lambda>_ s' evs. marks evs = [] \<and> clean evs \<and> calls_in fin_call evs
        \<and> finish_ok env a (files s) evs (files s'))
     (\<lambda>e s' evs. marks evs = [] \<and> failing e evs \<and> calls_in fin_call evs
        \<and> finish_failed env a e (files s) evs (files s'))"
  unfolding finish_def save_checkpoint_def
  apply (intro emits_rules emits_write_file)
  apply (auto simp: finish_ok_def finish_failed_def checkpoint_state_def)
  done

lemma train_epoch_unbound:
  assumes "train_loader env e = []" and "loss s = None" and "e < 10"
  shows "train_epoch env a e s = (Inl UnboundLocalError, s)"
  using assms by (simp add: train_epoch_def bindM_def returnM_def read_loss_def)

lemma train_body_shape:
  assumes run: "train_body env a s0 = (r, s')"
  shows "\<exists>evs1 evs2. trace s' = trace s0 @ evs1 @ evs2
           \<and> calls_in loop_call evs1 \<and> calls_in fin_call evs2 \<and> marks evs2 = []
           \<and> (case r of
                Inr _ \<Rightarrow> clean (evs1 @ evs2) \<and> marks evs1 = all_marks env a
                         \<and> finish_ok env a (files s0) evs2 (files s')
              | Inl e \<Rightarrow> failing e (evs1 @ evs2) \<and> prefix (marks evs1) (all_marks env a)
                         \<and> ((evs2 = [] \<and> files s' = files s0) \<or>
                            (clean evs1 \<and> marks evs1 = all_marks env a
                             \<and> finish_failed env a e (files s0) evs2 (files s'))))"
proof -
  let ?K = "log_every_n_steps a"
  let ?ld = "\<lambda>e. length (train_loader env e)"
  let ?es = "[0..<nat (train_epochs a)]"
  obtain r1 s1 where p1: "prelude env a s0 = (r1, s1)" by (cases "prelude env a s0")
  from emitsD[OF prelude_emits p1] obtain evsp where
    tp: "trace s1 = trace s0 @ evsp" and
    pp: "case r1 of Inr x \<Rightarrow> marks evsp = [] \<and> n_iter s1 = 0 \<and> loss s1 = loss s0 \<and> top1 s1 = top1 s0
            \<and> files s1 = files s0 \<and> clean evsp \<and> calls_in loop_call evsp
          | Inl e \<Rightarrow> marks evsp = [] \<and> files s1 = files s0 \<and> failing e evsp \<and> calls_in loop_call evsp"
    by blast
  show ?thesis
  proof (cases r1)
    case (Inl e)
    with p1 run have "r = Inl e" "s' = s1" by (simp_all add: train_body_def bindM_def)
    with Inl pp tp show ?thesis
      by - (rule exI[of _ evsp], rule exI[of _ "[]"], simp)
  next
    case (Inr u)
    obtain r2 s2 where p2: "epoch_loop env a ?es s1 = (r2, s2)" by (cases "epoch_loop env a ?es s1")
    from emitsD[OF epoch_loop_emits p2] obtain evsl where
      tl: "trace s2 = trace s1 @ evsl" and
      pl: "case r2 of Inr x \<Rightarrow> marks evsl = run_marks ?K ?ld ?es (n_iter s1)
              \<and> files s2 = files s1 \<and> clean evsl \<and> calls_in loop_call evsl
            | Inl e \<Rightarrow> prefix (marks evsl) (run_marks ?K ?ld ?es (n_iter s1))
              \<and> files s2 = files s1 \<and> failing e evsl \<and> calls_in loop_call evsl"
      by blast
    from Inr pp have n0: "n_iter s1 = 0" and ppp: "marks evsp = []" "files s1 = files s0" "clean evsp"
      "calls_in loop_call evsp" by simp_all
    show ?thesis
    proof (cases r2)
      case (Inl e)
      with p1 p2 Inr run have "r = Inl e" "s' = s2" by (simp_all add: train_body_def bindM_def)
      with Inl pl tl tp ppp n0 show ?thesis
        by - (rule exI[of _ "evsp @ evsl"], rule exI[of _ "[]"], simp add: failing_append all_marks_def)
    next
      case (Inr u2)
      with p1 p2 \<open>r1 = Inr u\<close> run have p3: "finish env a s2 = (r, s')"
        by (simp add: train_body_def bindM_def)
      from emitsD[OF finish_emits p3] obtain evsf where
        tf: "trace s' = trace s2 @ evsf" and
        pf: "case r of Inr x \<Rightarrow> marks evsf = [] \<and> clean evsf \<and> calls_in fin_call evsf
                \<and> finish_ok env a (files s2) evsf (files s')
              | Inl e \<Rightarrow> marks evsf = [] \<and> failing e evsf \<and> calls_in fin_call evsf
                \<and> finish_failed env a e (files s2) evsf (files s')"
        by blast
      from Inr pl have ppl: "marks evsl = run_marks ?K ?ld ?es (n_iter s1)" "files s2 = files s1"
        "clean evsl" "calls_in loop_call evsl" by simp_all
      show ?thesis
        apply (rule exI[of _ "evsp @ evsl"])
        apply (rule exI[of _ evsf])
        using pf tf tl tp ppp ppl n0
        apply (cases r)
         apply (simp_all add: failing_append all_marks_def)
        done
    qed
  qed
qed

lemma label_mask_ok:
  assumes n: "1 \<le> n_views a" and b: "1 \<le> batch_size a"
  shows "label_mask a =
         Inr (map (\<lambda>i. map (\<lambda>j. of_bool (j mod nat (batch_size a) = i mod nat (batch_size a)))
                          (other_cols (nat (n_views a) * nat (batch_size a)) i))
                  [0..<nat (n_views a) * nat (batch_size a)])"
proof -
  define M where "M = nat (n_views a) * nat (batch_size a)"
  have Mpos: "0 < M" using n b by (simp add: M_def)
  have oth: "\<And>i. i < M \<Longrightarrow> length (filter (\<lambda>j. i \<noteq> j) [0..<M]) = M - 1"
    using length_other_cols by (simp add: other_cols_def)
  have inv_eye: "invert (eye M) = map (\<lambda>i. map (\<lambda>j. i \<noteq> j) [0..<M]) [0..<M]"
    by (simp add: invert_def eye_def comp_def)
  have src: "source_labels a =
      Inr (map (\<lambda>i. map (\<lambda>j. of_bool (j mod nat (batch_size a) = i mod nat (batch_size a)) :: real) [0..<M]) [0..<M])"
    using source_labels_ok[of a] n b by (simp add: M_def)
  show ?thesis
    unfolding label_mask_def src
    apply (subst bindE_def)
    apply (simp only: sum.case length_map length_upt diff_zero inv_eye)
    unfolding M_def[symmetric] other_cols_def
    by (rule masked_view[OF Mpos oth])
qed

lemma count_positive_row:
  "length (filter ((\<lambda>x. x \<noteq> 0) \<circ> (\<lambda>j. of_bool (j mod B = i mod B) :: real)) (other_cols M i))
   = length (positive_cols B M i)"
  by (simp add: positive_cols_def comp_def)

lemma args0_simps [simp]: "n_views args0 = 2" "batch_size args0 = 2" "temperature args0 = 1 / 2"
  by (simp_all add: args0_def)

lemma features0_length [simp]: "length features0 = 4"
  by (simp add: features0_def)

lemma l2_norm_single: "l2_norm [x] = \<bar>x\<bar>"
  by (simp add: l2_norm_def)

lemmas eval_simps = positive_cols_def negative_cols_def other_cols_def sim_def F_normalize_def
  l2_norm_single dot_def normalize_eps_def tdiv_def

lemma upt2: "[0..<2] = [0, 1]"
  by (simp add: upt_rec numeral_2_eq_2)

lemma source_labels_no_views: "n_views a \<le> 0 \<Longrightarrow> source_labels a = Inl TorchError"
  by (simp add: source_labels_def arange_views_def cat0_def bindE_def)

lemma source_labels_bad_batch:
  "0 < n_views a \<Longrightarrow> batch_size a < 0 \<Longrightarrow> source_labels a = Inl TorchError"
  by (simp add: source_labels_def arange_views_def arange_def cat0_def bindE_def)

lemma concat_replicate_Nil: "concat (replicate n []) = []"
  by (induction n) simp_all

lemma source_labels_empty_batch:
  "0 < n_views a \<Longrightarrow> batch_size a = 0 \<Longrightarrow> source_labels a = Inr []"
  by (simp add: source_labels_def arange_views_def arange_def cat0_def bindE_def eq_outer_def
      concat_replicate_Nil)

lemma info_nce_loss_bad_config:
  assumes "n_views a \<le> 0 \<or> batch_size a \<le> 0"
  shows "info_nce_loss features a = Inl TorchError"
proof -
  consider "n_views a \<le> 0" | "0 < n_views a" "batch_size a < 0" | "0 < n_views a" "batch_size a = 0"
    using assms by linarith
  then show ?thesis
  proof cases
    case 1
    then show ?thesis by (simp add: info_nce_loss_def source_labels_no_views bindE_def)
  next
    case 2
    then show ?thesis by (simp add: info_nce_loss_def source_labels_bad_batch bindE_def)
  next
    case 3
    then show ?thesis
      by (simp add: info_nce_loss_def source_labels_empty_batch bindE_def Let_def eye_def invert_def
          masked_select_def select_row_def view_rows_def)
  qed
qed

lemma train_simclr_shape:
  assumes run: "train_simclr env a w fs = (r, s')"
  shows "\<exists>evs1 evs2. trace s' = evs1 @ evs2
           \<and> calls_in loop_call evs1 \<and> calls_in fin_call evs2 \<and> marks evs2 = []
           \<and> (case r of
                Inr _ \<Rightarrow> clean (evs1 @ evs2) \<and> marks evs1 = all_marks env a
                         \<and> finish_ok env a fs evs2 (files s')
              | Inl e \<Rightarrow> failing e (evs1 @ evs2) \<and> prefix (marks evs1) (all_marks env a)
                         \<and> ((evs2 = [] \<and> files s' = fs) \<or>
                            (clean evs1 \<and> marks evs1 = all_marks env a
                             \<and> finish_failed env a e fs evs2 (files s'))))"
proof -
  have f: "files (init_state w fs) = fs" and t: "trace (init_state w fs) = []"
    by (simp_all add: init_state_def)
  have "train_body env a (init_state w fs) = (r, s')"
    using run by (simp add: train_simclr_def)
  from train_body_shape[OF this] show ?thesis
    unfolding f t append_Nil .
qed

lemma train_simclr_marks:
  assumes run: "train_simclr env a w fs = (r, s')"
  shows "prefix (marks (trace s')) (all_marks env a)"
    and "r = Inr () \<Longrightarrow> marks (trace s') = all_marks env a"
proof -
  from train_simclr_shape[OF run] obtain evs1 evs2 where
    t: "trace s' = evs1 @ evs2" and m2: "marks evs2 = []" and
    c: "case r of
                Inr _ \<Rightarrow> clean (evs1 @ evs2) \<and> marks evs1 = all_marks env a
                         \<and> finish_ok env a fs evs2 (files s')
              | Inl e \<Rightarrow> failing e (evs1 @ evs2) \<and> prefix (marks evs1) (all_marks env a)
                         \<and> ((evs2 = [] \<and> files s' = fs) \<or>
                            (clean evs1 \<and> marks evs1 = all_marks env a
                             \<and> finish_failed env a e fs evs2 (files s')))"
    by blast
  show "prefix (marks (trace s')) (all_marks env a)"
    using t m2 c by (cases r) auto
  show "marks (trace s') = all_marks env a" if "r = Inr ()"
    using t m2 c that by auto
qed

lemma filter_steps_not_log:
  "filter (\<lambda>m. \<not> is_log m) (steps_marks K n k) = replicate k MStep"
  by (induction k arbitrary: n) (simp_all add: step_marks_def)

lemma filter_run_not_log:
  "filter (\<lambda>m. \<not> is_log m) (run_marks K ld es n) = concat (map (epoch_schedule ld) es)"
  by (induction es arbitrary: n) (simp_all add: epoch_marks_def epoch_schedule_def filter_steps_not_log)

lemma steps_marks_add:
  "steps_marks K n (j + k) = steps_marks K n j @ steps_marks K (n + int j) k"
  by (induction j arbitrary: n) (simp_all add: algebra_simps)

lemma filter_steps_step_or_log:
  "filter step_or_log (steps_marks K n k) = steps_marks K n k"
  by (induction k arbitrary: n) (simp_all add: step_marks_def)

lemma filter_run_step_or_log:
  "filter step_or_log (run_marks K ld es n) = steps_marks K n (sum_list (map ld es))"
  by (induction es arbitrary: n)
     (simp_all add: epoch_marks_def filter_steps_step_or_log steps_marks_add)

lemma steps_marks_upt:
  "steps_marks K n k = concat (map (\<lambda>i. step_marks K (n + int i)) [0..<k])"
proof (induction k)
  case 0
  show ?case by simp
next
  case (Suc k)
  have "steps_marks K n (Suc k) = steps_marks K n (k + 1)" by simp
  also have "\<dots> = steps_marks K n k @ step_marks K (n + int k)"
    unfolding steps_marks_add by simp
  finally show ?case using Suc by simp
qed

lemma clean_no_failure: "clean tr \<Longrightarrow> (c, Some e) \<notin> set tr"
  by (induction tr rule: clean.induct) auto

lemma failing_Some:
  "failing e' tr \<Longrightarrow> (c, Some e) \<in> set tr \<Longrightarrow> e = e' \<and> last tr = (c, Some e)"
  by (induction e' tr rule: failing.induct) auto

lemma calls_in_mem: "calls_in P evs \<Longrightarrow> (c, r) \<in> set evs \<Longrightarrow> P c"
  by (auto simp: calls_in_def)

lemma marks_mem: "m \<in> set (marks evs) \<Longrightarrow> \<exists>c r. (c, r) \<in> set evs \<and> m \<in> set (mark_of c)"
proof (induction evs)
  case Nil
  then show ?case by simp
next
  case (Cons ev evs)
  obtain c r where ev: "ev = (c, r)" by (cases ev)
  from Cons.prems have "m \<in> set (mark_of c) \<or> m \<in> set (marks evs)"
    unfolding ev by simp
  then show ?case
  proof
    assume "m \<in> set (mark_of c)"
    then show ?thesis unfolding ev by (intro exI[of _ c] exI[of _ r]) simp
  next
    assume "m \<in> set (marks evs)"
    from Cons.IH[OF this] obtain c' r' where "(c', r') \<in> set evs" "m \<in> set (mark_of c')"
      by blast
    then show ?thesis by (intro exI[of _ c'] exI[of _ r']) simp
  qed
qed

lemma fin_view_mem: "(c, r) \<in> set evs \<Longrightarrow> \<not> loop_call c \<Longrightarrow> (c, r) \<in> set (fin_view evs)"
  by (auto simp: fin_view_def)


lemma train_simclr_finish:
  assumes run: "train_simclr env a w fs = (r, s')"
  shows "case r of Inr _ \<Rightarrow> finish_ok env a fs (trace s') (files s')
         | Inl e \<Rightarrow> finish_failed env a e fs (trace s') (files s')"
proof -
  from train_simclr_shape[OF run] obtain evs1 evs2 where
    t: "trace s' = evs1 @ evs2" and l: "calls_in loop_call evs1" and
    c: "case r of
                Inr _ \<Rightarrow> clean (evs1 @ evs2) \<and> marks evs1 = all_marks env a
                         \<and> finish_ok env a fs evs2 (files s')
              | Inl e \<Rightarrow> failing e (evs1 @ evs2) \<and> prefix (marks evs1) (all_marks env a)
                         \<and> ((evs2 = [] \<and> files s' = fs) \<or>
                            (clean evs1 \<and> marks evs1 = all_marks env a
                             \<and> finish_failed env a e fs evs2 (files s')))"
    by blast
  have v: "fin_view (trace s') = fin_view evs2"
    using t fin_view_loop_calls[OF l] by simp
  show ?thesis
  proof (cases r)
    case (Inr u)
    with c have "finish_ok env a fs evs2 (files s')" by simp
    then have "finish_ok env a fs (trace s') (files s')"
      unfolding finish_ok_def v .
    with Inr show ?thesis by simp
  next
    case (Inl e)
    with c have "(evs2 = [] \<and> files s' = fs) \<or> finish_failed env a e fs evs2 (files s')"
      by auto
    then have "finish_failed env a e fs evs2 (files s')"
      by (auto simp: finish_failed_def)
    then have "finish_failed env a e fs (trace s') (files s')"
      unfolding finish_failed_def v .
    with Inl show ?thesis by simp
  qed
qed

lemma clean_mem: "clean evs \<Longrightarrow> (c, r) \<in> set evs \<Longrightarrow> r = None"
  by (induction evs rule: clean.induct) auto

lemma mark_of_log:
  "MLog ks n \<in> set (mark_of c) \<Longrightarrow> \<exists>p. c = Wandb_log p \<and> ks = map fst p \<and> n = global_step_of p"
  by (cases c) simp_all

lemma all_marks_first_log:
  assumes "1 \<le> train_epochs a" and "train_loader env 0 \<noteq> []"
  shows "MLog metric_keys (Some 0) \<in> set (all_marks env a)"
proof -
  have "0 < nat (train_epochs a)" using assms(1) by simp
  then have u: "[0..<nat (train_epochs a)] = 0 # [1..<nat (train_epochs a)]"
    by (simp add: upt_conv_Cons)
  obtain k where k: "length (train_loader env 0) = Suc k"
    using assms(2) by (cases "train_loader env 0") simp_all
  show ?thesis
    unfolding all_marks_def u by (simp add: epoch_marks_def k step_marks_def)
qed

lemma empty_first_epoch_run:
  assumes e: "1 \<le> train_epochs a" and l: "train_loader env 0 = []"
  shows "train_simclr env a w fs =
           (case prelude env a (init_state w fs) of
              (Inr u, s1) \<Rightarrow> (Inl UnboundLocalError, s1)
            | (Inl e, s1) \<Rightarrow> (Inl e, s1))"
    and "fin_view (trace (snd (prelude env a (init_state w fs)))) = []"
    and "marks (trace (snd (prelude env a (init_state w fs)))) = []"
    and "files (snd (prelude env a (init_state w fs))) = fs"
proof -
  obtain r1 s1 where p1: "prelude env a (init_state w fs) = (r1, s1)"
    by (cases "prelude env a (init_state w fs)")
  from emitsD[OF prelude_emits p1] obtain evsp where
    tp: "trace s1 = trace (init_state w fs) @ evsp" and
    pp: "case r1 of Inr x \<Rightarrow> marks evsp = [] \<and> n_iter s1 = 0 \<and> loss s1 = loss (init_state w fs)
            \<and> top1 s1 = top1 (init_state w fs)
            \<and> files s1 = files (init_state w fs) \<and> clean evsp \<and> calls_in loop_call evsp
          | Inl e \<Rightarrow> marks evsp = [] \<and> files s1 = files (init_state w fs) \<and> failing e evsp
            \<and> calls_in loop_call evsp"
    by blast
  have t0: "trace s1 = evsp" using tp by (simp add: init_state_def)
  have m: "marks evsp = []" and c: "calls_in loop_call evsp" and f: "files s1 = fs"
    using pp by (cases r1; simp add: init_state_def)+
  show "fin_view (trace (snd (prelude env a (init_state w fs)))) = []"
    using fin_view_loop_calls[OF c] by (simp add: p1 t0)
  show "marks (trace (snd (prelude env a (init_state w fs)))) = []"
    using m by (simp add: p1 t0)
  show "files (snd (prelude env a (init_state w fs))) = fs"
    using f by (simp add: p1)
  have "0 < nat (train_epochs a)" using e by simp
  then have u: "[0..<nat (train_epochs a)] = 0 # [1..<nat (train_epochs a)]"
    by (simp add: upt_conv_Cons)
  show "train_simclr env a w fs =
           (case prelude env a (init_state w fs) of
              (Inr u, s1) \<Rightarrow> (Inl UnboundLocalError, s1)
            | (Inl e, s1) \<Rightarrow> (Inl e, s1))"
  proof (cases r1)
    case (Inl e1)
    then show ?thesis by (simp add: train_simclr_def train_body_def bindM_def p1)
  next
    case (Inr u1)
    with pp have "loss s1 = None" by (simp add: init_state_def)
    from train_epoch_unbound[OF l this, of a] have "train_epoch env a 0 s1 = (Inl UnboundLocalError, s1)"
      by simp
    with Inr show ?thesis
      by (simp add: train_simclr_def train_body_def bindM_def p1 u)
  qed
qed

lemma info_nce_loss_run:
  "info_nce_loss [[1], [1]] args_run = Inr ([[Finite 2], [Finite 2]], [0, 0])"
proof -
  have a: "1 \<le> n_views args_run" "1 \<le> batch_size args_run" by (simp_all add: args_run_def)
  have l1: "length [[1], [1 :: real]] = nat (n_views args_run) * nat (batch_size args_run)"
    by (simp add: args_run_def)
  show ?thesis
    unfolding info_nce_loss_char[OF a l1]
    by (simp add: eval_simps args_run_def upt2 numeral_2_eq_2)
qed

lemmas run_defs = bindM_def returnM_def liftE_def perform_def query_def forward_def
  call_criterion_def set_n_iter_def get_n_iter_def set_loss_def set_top1_def read_loss_def
  read_top1_def index0_def py_mod_def cat0_def

lemma stub_env_simps:
  "effect (stub_env eff ld) = eff"
  "model_forward (stub_env eff ld) w images = Inr ([[1], [1]], w)"
  "criterion (stub_env eff ld) = Some (\<lambda>logits labels. Inr 0)"
  "accuracy (stub_env eff ld) logits labels = Inr ([1], [1])"
  "scheduler_get_lr (stub_env eff ld) w = Inr [1]"
  "model_state_dict (stub_env eff ld) w = Inr ()"
  "optimizer_state_dict (stub_env eff ld) w = Inr ()"
  "train_loader (stub_env eff ld) = ld"
  by (simp_all add: stub_env_def)

lemma args_run_simps:
  "log_every_n_steps args_run = 2" "train_epochs args_run = 11" "arch args_run = ''resnet18''"
  "fp16_precision args_run = False" "disable_cuda args_run = True"
  by (simp_all add: args_run_def)

lemma train_step_run:
  assumes up: "\<And>c w. loop_call c \<Longrightarrow> eff c w = Inr w"
    and "n_iter s mod 2 = 0 \<or> top1 s = Some [1]"
  shows "\<exists>s1. train_step (stub_env eff ld) args_run batch_run s = (Inr (), s1)
              \<and> top1 s1 = Some [1] \<and> loss s1 = Some 0"
  using assms(2)
  by (auto simp: train_step_def log_metrics_def run_defs stub_env_simps batch_run_def
        info_nce_loss_run args_run_simps up)

lemma train_epoch_run:
  assumes up: "\<And>c w. loop_call c \<Longrightarrow> eff c w = Inr w"
    and "n_iter s mod 2 = 0 \<or> top1 s = Some [1]"
  shows "\<exists>s1. train_epoch (stub_env eff one_batch) args_run e s = (Inr (), s1) \<and> top1 s1 = Some [1]"
proof -
  from train_step_run[of eff s one_batch, OF up assms(2)] obtain s1 where
    st: "train_step (stub_env eff one_batch) args_run batch_run s = (Inr (), s1)" and
    t: "top1 s1 = Some [1]" and l: "loss s1 = Some 0"
    by blast
  show ?thesis
    using st t l by (auto simp: train_epoch_def run_defs stub_env_simps one_batch_def up)
qed

lemma epoch_loop_run:
  assumes up: "\<And>c w. loop_call c \<Longrightarrow> eff c w = Inr w"
    and "n_iter s mod 2 = 0 \<or> top1 s = Some [1]"
  shows "\<exists>s1. epoch_loop (stub_env eff one_batch) args_run es s = (Inr (), s1)"
  using assms(2)
proof (induction es arbitrary: s)
  case Nil
  show ?case by (simp add: returnM_def)
next
  case (Cons e es)
  from train_epoch_run[of eff s e, OF up Cons.prems] obtain s1 where
    st: "train_epoch (stub_env eff one_batch) args_run e s = (Inr (), s1)" and t: "top1 s1 = Some [1]"
    by blast
  from Cons.IH[of s1] t obtain s2 where
    "epoch_loop (stub_env eff one_batch) args_run es s1 = (Inr (), s2)"
    by blast
  with st show ?case by (simp add: bindM_def)
qed

lemma prelude_run:
  assumes up: "\<And>c w. loop_call c \<Longrightarrow> eff c w = Inr w"
  shows "\<exists>s1. prelude (stub_env eff ld) a (init_state w fs) = (Inr (), s1) \<and> n_iter s1 = 0"
  by (simp add: prelude_def run_defs stub_env_simps init_state_def up)

lemma loops_run:
  assumes up: "\<And>c w. loop_call c \<Longrightarrow> eff c w = Inr w"
  shows "\<exists>s2. train_simclr (stub_env eff one_batch) args_run w fs =
               finish (stub_env eff one_batch) args_run s2"
proof -
  from prelude_run[of eff one_batch args_run w fs, OF up] obtain s1 where
    p: "prelude (stub_env eff one_batch) args_run (init_state w fs) = (Inr (), s1)"
    and n: "n_iter s1 = 0"
    by blast
  from epoch_loop_run[of eff s1 "[0..<nat (train_epochs args_run)]", OF up] n obtain s2 where
    l: "epoch_loop (stub_env eff one_batch) args_run [0..<nat (train_epochs args_run)] s1 = (Inr (), s2)"
    by auto
  show ?thesis
    using p l by (intro exI[of _ s2]) (simp add: train_simclr_def train_body_def bindM_def)
qed

lemma train_simclr_run: "fst (train_simclr (stub_env all_up one_batch) args_run w fs) = Inr ()"
proof -
  from loops_run[of all_up w fs] obtain s2 where
    "train_simclr (stub_env all_up one_batch) args_run w fs =
       finish (stub_env all_up one_batch) args_run s2"
    by (auto simp: all_up_def)
  then show ?thesis
    by (simp add: finish_def save_checkpoint_def run_defs stub_env_simps all_up_def)
qed


lemma upt_11: "[0..<11] = [0, 1, 2, 3, 4, 5, 6, 7, 8, 9, 10]"
  by code_simp

lemma tracking_down_run:
  "fst (train_simclr (stub_env tracking_down one_batch) args_run () Map.empty) = Inl CommError"
  "marks (trace (snd (train_simclr (stub_env tracking_down one_batch) args_run () Map.empty)))
     = [MStep, MLog metric_keys (Some 0)]"
  "last (trace (snd (train_simclr (stub_env tracking_down one_batch) args_run () Map.empty)))
     = (Wandb_log [(''loss'', PyFloat 0), (''acc/top1'', PyFloat 1), (''acc/top5'', PyFloat 1),
                   (''learning_rate'', PyFloat 1), (''global_step'', PyInt 0)], Some CommError)"
  "(Wandb_log [(''loss'', PyFloat 0), (''acc/top1'', PyFloat 1), (''acc/top5'', PyFloat 1),
               (''learning_rate'', PyFloat 1), (''global_step'', PyInt 0)], Some CommError)
     \<in> set (trace (snd (train_simclr (stub_env tracking_down one_batch) args_run () Map.empty)))"
  by (simp_all add: train_simclr_def train_body_def prelude_def train_epoch_def
      train_step_def log_metrics_def run_defs stub_env_simps init_state_def one_batch_def
      batch_run_def info_nce_loss_run args_run_simps upt_11 metric_keys_def global_step_of_def)


lemma checkpoint_name_run: "checkpoint_name args_run = ''checkpoint_0011.pth.tar''"
  by (simp add: checkpoint_name_def format_04d_def args_run_simps str_nat.simps[of 11]
      str_nat.simps[of 1] str_nat.simps[of "Suc 0"] digit_char_def numeral_2_eq_2)

lemma fin_view_subset: "(c, r) \<in> set (fin_view evs) \<Longrightarrow> (c, r) \<in> set evs"
  by (simp add: fin_view_def)

section \<open>Properties\<close>

text \<open>
  C1. For \<open>n_views \<ge> 2\<close>, \<open>batch_size \<ge> 1\<close> and a feature tensor with
  \<open>n_views * batch_size\<close> rows, every row of the label mask with the diagonal removed
  has exactly \<open>n_views - 1\<close> positive entries, and row \<open>i\<close> of the returned logits
  is the \<open>n_views - 1\<close> similarities to the other views of the same image, in column
  order, followed by the \<open>n_views * batch_size - n_views\<close> similarities to the views of
  other images, all divided by the temperature.
\<close>

theorem info_nce_loss_positives_first:
  assumes "2 \<le> n_views a" and "1 \<le> batch_size a"
    and "length features = nat (n_views a) * nat (batch_size a)"
  shows "\<exists>mask logits labels.
           label_mask a = Inr mask \<and> length mask = length features
           \<and> (\<forall>row \<in> set mask. length (filter (\<lambda>x. x \<noteq> 0) row) = nat (n_views a) - 1)
           \<and> info_nce_loss features a = Inr (logits, labels)
           \<and> length logits = length features
           \<and> (\<forall>i < length features.
                 logits ! i =
                   map (tdiv (temperature a))
                     (map (sim features i) (positive_cols (nat (batch_size a)) (length features) i) @
                      map (sim features i) (negative_cols (nat (batch_size a)) (length features) i))
                 \<and> length (positive_cols (nat (batch_size a)) (length features) i) = nat (n_views a) - 1
                 \<and> length (negative_cols (nat (batch_size a)) (length features) i)
                     = length features - nat (n_views a))"
proof -
  define B where "B = nat (batch_size a)"
  define N where "N = nat (n_views a)"
  have Bpos: "0 < B" using assms(2) by (simp add: B_def)
  have n1: "1 \<le> n_views a" using assms(1) by simp
  have len: "length features = N * B" using assms(3) by (simp add: N_def B_def)
  have pos: "\<And>i. i < N * B \<Longrightarrow> length (positive_cols B (N * B) i) = N - 1"
    by (rule length_positive_cols[OF Bpos])
  have neg: "\<And>i. i < N * B \<Longrightarrow> length (negative_cols B (N * B) i) = N * B - N"
    by (rule length_negative_cols[OF Bpos])
  show ?thesis
    unfolding label_mask_ok[OF n1 assms(2)] info_nce_loss_char[OF n1 assms(2) assms(3)]
    using pos neg
    by (auto simp: len N_def[symmetric] B_def[symmetric] count_positive_row)
qed

theorem info_nce_loss_positives_first_witness:
  "2 \<le> n_views args0 \<and> 1 \<le> batch_size args0
   \<and> length features0 = nat (n_views args0) * nat (batch_size args0)
   \<and> (\<exists>mask logits labels.
           label_mask args0 = Inr mask \<and> length mask = 4
           \<and> list_all (\<lambda>row. length (filter (\<lambda>x. x \<noteq> 0) row) = 1) mask
           \<and> info_nce_loss features0 args0 = Inr (logits, labels)
           \<and> length logits = 4)"
proof -
  have h1: "2 \<le> n_views args0" and h2: "1 \<le> batch_size args0"
    and h3: "length features0 = nat (n_views args0) * nat (batch_size args0)"
    by simp_all
  from info_nce_loss_positives_first[OF h1 h2 h3] h1 h2 h3 show ?thesis
    by (simp add: list_all_iff) blast
qed

text \<open>
  C2. Under the same conditions \<open>info_nce_loss\<close> returns logits of shape
  \<open>(n_views * batch_size, n_views * batch_size - 1)\<close> and the zero label vector of length
  \<open>n_views * batch_size\<close>.
\<close>

theorem info_nce_loss_shape:
  assumes "2 \<le> n_views a" and "1 \<le> batch_size a"
    and "length features = nat (n_views a) * nat (batch_size a)"
  shows "\<exists>logits labels.
           info_nce_loss features a = Inr (logits, labels)
           \<and> length logits = nat (n_views a) * nat (batch_size a)
           \<and> (\<forall>row \<in> set logits. length row = nat (n_views a) * nat (batch_size a) - 1)
           \<and> labels = replicate (nat (n_views a) * nat (batch_size a)) 0"
proof -
  define B where "B = nat (batch_size a)"
  define N where "N = nat (n_views a)"
  have Bpos: "0 < B" using assms(2) by (simp add: B_def)
  have Npos: "0 < N" using assms(1) by (simp add: N_def)
  have n1: "1 \<le> n_views a" using assms(1) by simp
  have len: "length features = N * B" using assms(3) by (simp add: N_def B_def)
  have NB: "N \<le> N * B" using Bpos by simp
  have pos: "\<And>i. i < N * B \<Longrightarrow> length (positive_cols B (N * B) i) = N - 1"
    by (rule length_positive_cols[OF Bpos])
  have neg: "\<And>i. i < N * B \<Longrightarrow> length (negative_cols B (N * B) i) = N * B - N"
    by (rule length_negative_cols[OF Bpos])
  show ?thesis
    unfolding info_nce_loss_char[OF n1 assms(2) assms(3)]
    using pos neg Npos NB
    by (auto simp: len N_def[symmetric] B_def[symmetric])
qed

theorem info_nce_loss_shape_witness:
  "2 \<le> n_views args0 \<and> 1 \<le> batch_size args0
   \<and> length features0 = nat (n_views args0) * nat (batch_size args0)
   \<and> (\<exists>logits labels.
           info_nce_loss features0 args0 = Inr (logits, labels)
           \<and> length logits = 4
           \<and> list_all (\<lambda>row. length row = 3) logits
           \<and> labels = replicate 4 0)"
proof -
  have h1: "2 \<le> n_views args0" and h2: "1 \<le> batch_size args0"
    and h3: "length features0 = nat (n_views args0) * nat (batch_size args0)"
    by simp_all
  from info_nce_loss_shape[OF h1 h2 h3] h1 h2 h3 show ?thesis
    by (simp add: list_all_iff)
qed

text \<open>
  C3 (as stated, refuted). With one view and two images \<open>info_nce_loss\<close> returns
  normally: two rows holding one negative each, no positive column, labels zero.
\<close>

theorem info_nce_loss_single_view_counterexample:
  "info_nce_loss [[1], [1]] args_single = Inr ([[Finite 1], [Finite 1]], [0, 0])"
proof -
  have a: "1 \<le> n_views args_single" "1 \<le> batch_size args_single" by (simp_all add: args_single_def)
  have l1: "length [[1], [1 :: real]] = nat (n_views args_single) * nat (batch_size args_single)"
    by (simp add: args_single_def)
  show ?thesis
    unfolding info_nce_loss_char[OF a l1]
    by (simp add: eval_simps args_single_def upt2 numeral_2_eq_2)
qed


text \<open>
  C3 (amended). \<open>info_nce_loss\<close> checks nothing. With \<open>n_views = 1\<close>,
  \<open>batch_size = B \<ge> 1\<close> and a feature tensor of \<open>B\<close> rows, whatever the
  temperature, it returns \<open>B\<close> rows, each the \<open>B - 1\<close> similarities to the other
  rows divided by the temperature, and zero labels. With \<open>n_views \<le> 0\<close> or
  \<open>batch_size \<le> 0\<close> it fails: not with a configuration error raised before training,
  but with the exception a tensor operation (\<^verbatim>\<open>torch.cat\<close> on no tensor,
  \<^verbatim>\<open>torch.arange\<close> on a negative bound, \<^verbatim>\<open>view(0, -1)\<close>) raises during the call.
\<close>

theorem info_nce_loss_no_validation:
  "(n_views a = 1 \<and> 1 \<le> batch_size a \<and> length features = nat (batch_size a) \<longrightarrow>
      (\<exists>logits. info_nce_loss features a = Inr (logits, replicate (nat (batch_size a)) 0)
         \<and> length logits = nat (batch_size a)
         \<and> (\<forall>i < nat (batch_size a).
               logits ! i = map (tdiv (temperature a))
                              (map (sim features i) (other_cols (nat (batch_size a)) i))
               \<and> length (logits ! i) = nat (batch_size a) - 1)))
   \<and> (n_views a \<le> 0 \<or> batch_size a \<le> 0 \<longrightarrow> info_nce_loss features a = Inl TorchError)"
proof (intro conjI impI)
  assume h: "n_views a = 1 \<and> 1 \<le> batch_size a \<and> length features = nat (batch_size a)"
  define B where "B = nat (batch_size a)"
  have Bpos: "0 < B" using h by (simp add: B_def)
  have n1: "1 \<le> n_views a" and b1: "1 \<le> batch_size a"
    and len: "length features = nat (n_views a) * nat (batch_size a)"
    using h by simp_all
  have lenB: "length features = B" using h by (simp add: B_def)
  have pos: "\<And>i. i < B \<Longrightarrow> positive_cols B B i = []"
    using length_positive_cols[OF Bpos, of _ 1] by simp
  have neg: "\<And>i. i < B \<Longrightarrow> negative_cols B B i = other_cols B i"
  proof -
    fix i assume i: "i < B"
    have "filter (\<lambda>j. j mod B = i mod B) (other_cols B i) = []"
      using pos[OF i] by (simp add: positive_cols_def)
    then show "negative_cols B B i = other_cols B i"
      by (simp add: negative_cols_def filter_empty_conv filter_id_conv)
  qed
  show "\<exists>logits. info_nce_loss features a = Inr (logits, replicate (nat (batch_size a)) 0)
         \<and> length logits = nat (batch_size a)
         \<and> (\<forall>i < nat (batch_size a).
               logits ! i = map (tdiv (temperature a))
                              (map (sim features i) (other_cols (nat (batch_size a)) i))
               \<and> length (logits ! i) = nat (batch_size a) - 1)"
    unfolding info_nce_loss_char[OF n1 b1 len]
    using pos neg length_other_cols[of _ B]
    by (simp add: lenB B_def[symmetric])
next
  assume "n_views a \<le> 0 \<or> batch_size a \<le> 0"
  then show "info_nce_loss features a = Inl TorchError" by (rule info_nce_loss_bad_config)
qed

theorem info_nce_loss_no_validation_witness:
  "n_views args_single = 1 \<and> 1 \<le> batch_size args_single
   \<and> length [[1], [1 :: real]] = nat (batch_size args_single)
   \<and> (\<exists>logits. info_nce_loss [[1], [1]] args_single = Inr (logits, replicate 2 0) \<and> length logits = 2)
   \<and> n_views args_no_view \<le> 0
   \<and> info_nce_loss [[1], [1]] args_no_view = Inl TorchError"
proof -
  have h: "n_views args_single = 1 \<and> 1 \<le> batch_size args_single
     \<and> length [[1], [1 :: real]] = nat (batch_size args_single)"
    by (simp add: args_single_def)
  have b: "nat (batch_size args_single) = 2" by (simp add: args_single_def)
  have g: "n_views args_no_view \<le> 0 \<or> batch_size args_no_view \<le> 0" by (simp add: args_no_view_def)
  have g1: "n_views args_no_view \<le> 0" by (simp add: args_no_view_def)
  from info_nce_loss_no_validation[of args_single "[[1], [1]]"] h
  have 1: "\<exists>logits. info_nce_loss [[1], [1]] args_single = Inr (logits, replicate 2 0) \<and> length logits = 2"
    unfolding b by blast
  from info_nce_loss_no_validation[of args_no_view "[[1], [1]]"] g
  have 2: "info_nce_loss [[1], [1]] args_no_view = Inl TorchError" by blast
  from h 1 2 g1 show ?thesis by blast
qed

text \<open>
  C4. With the metric events left out, the calls of a run are those of its epochs in order:
  in epoch \<open>e\<close> one optimizer step for each batch, then \<^verbatim>\<open>scheduler.step()\<close> once if
  \<open>e \<ge> 10\<close> and not at all if \<open>e < 10\<close>, then the debug log that ends the epoch.
  A run that returns makes exactly these calls; a run that raises stops somewhere in this
  sequence. So the scheduler is never stepped in epochs 0 to 9, and in every later epoch it
  is stepped once, after the last batch of the epoch.
\<close>

theorem scheduler_step_after_warmup:
  assumes "train_simclr env a w fs = (r, s')"
  shows "prefix (filter (\<lambda>m. \<not> is_log m) (marks (trace s')))
           (concat (map (epoch_schedule (\<lambda>e. length (train_loader env e))) [0..<nat (train_epochs a)]))
         \<and> (r = Inr () \<longrightarrow>
              filter (\<lambda>m. \<not> is_log m) (marks (trace s')) =
              concat (map (epoch_schedule (\<lambda>e. length (train_loader env e))) [0..<nat (train_epochs a)]))"
  using train_simclr_marks[OF assms] filter_mono_prefix[of "marks (trace s')" "all_marks env a" "\<lambda>m. \<not> is_log m"]
  by (simp add: all_marks_def filter_run_not_log)

theorem scheduler_step_after_warmup_witness:
  "fst (train_simclr (stub_env all_up one_batch) args_run () Map.empty) = Inr ()
   \<and> filter (\<lambda>m. \<not> is_log m)
        (marks (trace (snd (train_simclr (stub_env all_up one_batch) args_run () Map.empty))))
     = [MStep, MEnd 0, MStep, MEnd 1, MStep, MEnd 2, MStep, MEnd 3, MStep, MEnd 4,
        MStep, MEnd 5, MStep, MEnd 6, MStep, MEnd 7, MStep, MEnd 8, MStep, MEnd 9,
        MStep, MSched, MEnd 10]"
proof -
  let ?run = "train_simclr (stub_env all_up one_batch) args_run () Map.empty"
  have ok: "fst ?run = Inr ()" by (rule train_simclr_run)
  have "?run = (fst ?run, snd ?run)" by simp
  from scheduler_step_after_warmup[OF this] ok
  have "filter (\<lambda>m. \<not> is_log m) (marks (trace (snd ?run))) =
        concat (map (epoch_schedule (\<lambda>e. length (train_loader (stub_env all_up one_batch) e)))
                  [0..<nat (train_epochs args_run)])"
    by blast
  then show ?thesis
    using ok by (simp add: epoch_schedule_def stub_env_simps one_batch_def args_run_simps upt_11)
qed



text \<open>
  C6 (as stated, refuted). With a tracking service whose \<^verbatim>\<open>wandb.log\<close> raises, the run
  over eleven batches raises that error at the first metric event: one optimizer step has
  been made, the failed \<^verbatim>\<open>wandb.log\<close> is the last call, no second step follows.
\<close>

theorem wandb_log_failure_counterexample:
  "fst (train_simclr (stub_env tracking_down one_batch) args_run () Map.empty) = Inl CommError
   \<and> marks (trace (snd (train_simclr (stub_env tracking_down one_batch) args_run () Map.empty)))
       = [MStep, MLog metric_keys (Some 0)]
   \<and> last (trace (snd (train_simclr (stub_env tracking_down one_batch) args_run () Map.empty)))
       = (Wandb_log [(''loss'', PyFloat 0), (''acc/top1'', PyFloat 1), (''acc/top5'', PyFloat 1),
                     (''learning_rate'', PyFloat 1), (''global_step'', PyInt 0)], Some CommError)
   \<and> batches_total (stub_env tracking_down one_batch) args_run = 11"
proof -
  have "batches_total (stub_env tracking_down one_batch) args_run = 11"
    by (simp add: batches_total_def stub_env_simps one_batch_def args_run_simps upt_11)
  with tracking_down_run(1,2,3) show ?thesis by blast
qed

text \<open>
  C6 (amended). There is no handler around \<^verbatim>\<open>wandb.log\<close>: when it raises, \<open>train_simclr\<close>
  raises that same error, the failed call is the last call of the run, no checkpoint is
  written or mirrored and the files are as they were.
\<close>

theorem wandb_log_failure_aborts:
  assumes run: "train_simclr env a w fs = (r, s')"
    and bad: "(Wandb_log d, Some e) \<in> set (trace s')"
  shows "r = Inl e \<and> last (trace s') = (Wandb_log d, Some e) \<and> fin_view (trace s') = []
         \<and> files s' = fs"
proof -
  from train_simclr_shape[OF run] obtain evs1 evs2 where
    t: "trace s' = evs1 @ evs2" and l: "calls_in loop_call evs1" and f: "calls_in fin_call evs2" and
    c: "case r of
                Inr _ \<Rightarrow> clean (evs1 @ evs2) \<and> marks evs1 = all_marks env a
                         \<and> finish_ok env a fs evs2 (files s')
              | Inl e \<Rightarrow> failing e (evs1 @ evs2) \<and> prefix (marks evs1) (all_marks env a)
                         \<and> ((evs2 = [] \<and> files s' = fs) \<or>
                            (clean evs1 \<and> marks evs1 = all_marks env a
                             \<and> finish_failed env a e fs evs2 (files s')))"
    by blast
  have "(Wandb_log d, Some e) \<notin> set evs2"
    using calls_in_mem[OF f, of "Wandb_log d" "Some e"] by auto
  with bad t have in1: "(Wandb_log d, Some e) \<in> set evs1" by simp
  then have nc: "\<not> clean evs1" using clean_no_failure[of evs1 "Wandb_log d" e] by blast
  show ?thesis
  proof (cases r)
    case (Inr u)
    with c nc show ?thesis by simp
  next
    case (Inl e')
    with c nc have fl: "failing e' (trace s')" and e2: "evs2 = []" and fi: "files s' = fs"
      using t by auto
    from failing_Some[OF fl bad] have "e = e'" "last (trace s') = (Wandb_log d, Some e)" by simp_all
    moreover have "fin_view (trace s') = []"
      using t e2 fin_view_loop_calls[OF l] by simp
    ultimately show ?thesis using Inl fi by simp
  qed
qed


theorem wandb_log_failure_aborts_witness:
  "(Wandb_log [(''loss'', PyFloat 0), (''acc/top1'', PyFloat 1), (''acc/top5'', PyFloat 1),
               (''learning_rate'', PyFloat 1), (''global_step'', PyInt 0)], Some CommError)
     \<in> set (trace (snd (train_simclr (stub_env tracking_down one_batch) args_run () Map.empty)))
   \<and> fst (train_simclr (stub_env tracking_down one_batch) args_run () Map.empty) = Inl CommError
   \<and> fin_view (trace (snd (train_simclr (stub_env tracking_down one_batch) args_run () Map.empty))) = []
   \<and> files (snd (train_simclr (stub_env tracking_down one_batch) args_run () Map.empty)) = Map.empty"
proof -
  let ?run = "train_simclr (stub_env tracking_down one_batch) args_run () Map.empty"
  have 1: "?run = (fst ?run, snd ?run)" by simp
  from wandb_log_failure_aborts[OF 1 tracking_down_run(4)] tracking_down_run(4)
  show ?thesis by blast
qed

text \<open>
  C7. Let \<open>K = log_every_n_steps \<ge> 1\<close>. The optimizer steps and metric events of a run
  are, for the batches \<open>n = 0, 1, 2, \<dots>\<close> counted through all the epochs, the step of
  batch \<open>n\<close> followed, exactly when \<open>K\<close> divides \<open>n\<close>, by one \<^verbatim>\<open>wandb.log\<close> whose
  keys are \<open>loss\<close>, \<open>acc/top1\<close>, \<open>acc/top5\<close>, \<open>learning_rate\<close>, \<open>global_step\<close>
  and whose \<open>global_step\<close> is \<open>n\<close>. A run that returns makes exactly these calls for
  all its batches; a run that raises stops somewhere in this sequence.
\<close>

theorem metrics_every_K_steps:
  assumes "train_simclr env a w fs = (r, s')" and "1 \<le> log_every_n_steps a"
  shows "prefix (filter step_or_log (marks (trace s')))
           (concat (map (\<lambda>n. MStep # (if int n mod log_every_n_steps a = 0
                                        then [MLog metric_keys (Some (int n))] else []))
                        [0..<batches_total env a]))
         \<and> (r = Inr () \<longrightarrow>
              filter step_or_log (marks (trace s')) =
              concat (map (\<lambda>n. MStep # (if int n mod log_every_n_steps a = 0
                                        then [MLog metric_keys (Some (int n))] else []))
                        [0..<batches_total env a]))"
  using train_simclr_marks[OF assms(1)] filter_mono_prefix[of "marks (trace s')" "all_marks env a" step_or_log]
  by (simp add: all_marks_def filter_run_step_or_log steps_marks_upt step_marks_def batches_total_def)


theorem metrics_every_K_steps_witness:
  "1 \<le> log_every_n_steps args_run
   \<and> fst (train_simclr (stub_env all_up one_batch) args_run () Map.empty) = Inr ()
   \<and> filter step_or_log
        (marks (trace (snd (train_simclr (stub_env all_up one_batch) args_run () Map.empty))))
     = [MStep, MLog metric_keys (Some 0), MStep,
        MStep, MLog metric_keys (Some 2), MStep,
        MStep, MLog metric_keys (Some 4), MStep,
        MStep, MLog metric_keys (Some 6), MStep,
        MStep, MLog metric_keys (Some 8), MStep,
        MStep, MLog metric_keys (Some 10)]"
proof -
  let ?run = "train_simclr (stub_env all_up one_batch) args_run () Map.empty"
  have ok: "fst ?run = Inr ()" by (rule train_simclr_run)
  have k: "1 \<le> log_every_n_steps args_run" by (simp add: args_run_simps)
  have "?run = (fst ?run, snd ?run)" by simp
  from metrics_every_K_steps[OF this k] ok
  have "filter step_or_log (marks (trace (snd ?run))) =
        concat (map (\<lambda>n. MStep # (if int n mod log_every_n_steps args_run = 0
                                        then [MLog metric_keys (Some (int n))] else []))
                        [0..<batches_total (stub_env all_up one_batch) args_run])"
    by blast
  moreover have "batches_total (stub_env all_up one_batch) args_run = 11"
    by (simp add: batches_total_def stub_env_simps one_batch_def args_run_simps upt_11)
  ultimately show ?thesis
    using ok k by (simp add: args_run_simps upt_11)
qed


text \<open>
  C10. Let \<open>train_epochs \<ge> 1\<close>. If the loader yields no batch in epoch 0, the run ends
  where the set-up of lines 35 to 48 left it: when the set-up returned, with the
  \<open>UnboundLocalError\<close> of reading \<open>loss\<close> for the debug log of line 82, and otherwise
  with the error of the set-up; no optimizer step, metric event, scheduler step or debug log
  has been made, no checkpoint written or mirrored, and the files are as they were. If
  \<open>save_checkpoint\<close> is called, then epoch 0 had a batch and a \<^verbatim>\<open>wandb.log\<close> with the
  five metric keys and \<open>global_step = 0\<close> has returned.
\<close>

theorem empty_first_epoch_fails:
  assumes "1 \<le> train_epochs a" and "train_simclr env a w fs = (r, s')"
  shows "(train_loader env 0 = [] \<longrightarrow>
            (r, s') = (case prelude env a (init_state w fs) of
                         (Inr u, s1) \<Rightarrow> (Inl UnboundLocalError, s1)
                       | (Inl e, s1) \<Rightarrow> (Inl e, s1))
            \<and> fin_view (trace s') = [] \<and> marks (trace s') = [] \<and> files s' = fs)
       \<and> ((Save_checkpoint d b f, ro) \<in> set (trace s') \<longrightarrow>
            train_loader env 0 \<noteq> []
            \<and> (\<exists>p. (Wandb_log p, None) \<in> set (trace s') \<and> map fst p = metric_keys
                    \<and> global_step_of p = Some 0))"
proof (intro conjI impI)
  have first: "(r, s') = (case prelude env a (init_state w fs) of
                         (Inr u, s1) \<Rightarrow> (Inl UnboundLocalError, s1)
                       | (Inl e, s1) \<Rightarrow> (Inl e, s1))
            \<and> fin_view (trace s') = [] \<and> marks (trace s') = [] \<and> files s' = fs"
    if l: "train_loader env 0 = []"
  proof -
    note run = empty_first_epoch_run[OF assms(1) l, of w fs]
    have eq: "(r, s') = (case prelude env a (init_state w fs) of
                         (Inr u, s1) \<Rightarrow> (Inl UnboundLocalError, s1)
                       | (Inl e, s1) \<Rightarrow> (Inl e, s1))"
      using run(1) assms(2) by simp
    then have "s' = snd (prelude env a (init_state w fs))"
      by (cases "prelude env a (init_state w fs)") (auto split: sum.splits)
    with eq run(2,3,4) show ?thesis by simp
  qed
  assume l: "train_loader env 0 = []"
  from first[OF l] show "(r, s') = (case prelude env a (init_state w fs) of
                         (Inr u, s1) \<Rightarrow> (Inl UnboundLocalError, s1)
                       | (Inl e, s1) \<Rightarrow> (Inl e, s1))"
    and "fin_view (trace s') = []" and "marks (trace s') = []" and "files s' = fs"
    by simp_all
next
  assume sv: "(Save_checkpoint d b f, ro) \<in> set (trace s')"
  have fv: "(Save_checkpoint d b f, ro) \<in> set (fin_view (trace s'))"
    using fin_view_mem[OF sv] by simp
  show ne: "train_loader env 0 \<noteq> []"
  proof
    assume l: "train_loader env 0 = []"
    note run = empty_first_epoch_run[OF assms(1) l, of w fs]
    from run(1) assms(2) have "s' = snd (prelude env a (init_state w fs))"
      by (cases "prelude env a (init_state w fs)") (auto split: sum.splits)
    with run(2) fv show False by simp
  qed
  from train_simclr_shape[OF assms(2)] obtain evs1 evs2 where
    t: "trace s' = evs1 @ evs2" and l1: "calls_in loop_call evs1" and
    c: "case r of
                Inr _ \<Rightarrow> clean (evs1 @ evs2) \<and> marks evs1 = all_marks env a
                         \<and> finish_ok env a fs evs2 (files s')
              | Inl e \<Rightarrow> failing e (evs1 @ evs2) \<and> prefix (marks evs1) (all_marks env a)
                         \<and> ((evs2 = [] \<and> files s' = fs) \<or>
                            (clean evs1 \<and> marks evs1 = all_marks env a
                             \<and> finish_failed env a e fs evs2 (files s')))"
    by blast
  have "(Save_checkpoint d b f, ro) \<notin> set evs1"
    using calls_in_mem[OF l1, of "Save_checkpoint d b f" ro] by auto
  with sv t have "evs2 \<noteq> []" by auto
  with c have cl: "clean evs1" and m: "marks evs1 = all_marks env a"
    by (cases r; simp)+
  from all_marks_first_log[OF assms(1) ne] m
  have "MLog metric_keys (Some 0) \<in> set (marks evs1)" by simp
  from marks_mem[OF this] obtain c0 r0 where
    in1: "(c0, r0) \<in> set evs1" and mk: "MLog metric_keys (Some 0) \<in> set (mark_of c0)"
    by blast
  from mark_of_log[OF mk] obtain p where p: "c0 = Wandb_log p" "metric_keys = map fst p"
    "Some 0 = global_step_of p" by blast
  from clean_mem[OF cl in1] have "r0 = None" .
  with in1 p t show "\<exists>p. (Wandb_log p, None) \<in> set (trace s') \<and> map fst p = metric_keys
                    \<and> global_step_of p = Some 0"
    by (intro exI[of _ p]) simp
qed

theorem empty_first_epoch_fails_witness:
  "1 \<le> train_epochs args_run \<and> train_loader (stub_env all_up no_batch) 0 = []
   \<and> fst (train_simclr (stub_env all_up no_batch) args_run () Map.empty) = Inl UnboundLocalError
   \<and> fin_view (trace (snd (train_simclr (stub_env all_up no_batch) args_run () Map.empty))) = []
   \<and> files (snd (train_simclr (stub_env all_up no_batch) args_run () Map.empty)) = Map.empty
   \<and> (Save_checkpoint (checkpoint_state args_run () ()) False ''checkpoint_0011.pth.tar'', None)
       \<in> set (trace (snd (train_simclr (stub_env all_up one_batch) args_run () Map.empty)))
   \<and> train_loader (stub_env all_up one_batch) 0 \<noteq> []
   \<and> (\<exists>p. (Wandb_log p, None)
             \<in> set (trace (snd (train_simclr (stub_env all_up one_batch) args_run () Map.empty)))
           \<and> map fst p = metric_keys \<and> global_step_of p = Some 0)"
proof -
  let ?nb = "train_simclr (stub_env all_up no_batch) args_run () Map.empty"
  let ?ok = "train_simclr (stub_env all_up one_batch) args_run () Map.empty"
  have e: "1 \<le> train_epochs args_run" by (simp add: args_run_simps)
  have l: "train_loader (stub_env all_up no_batch) 0 = []"
    by (simp add: stub_env_simps no_batch_def)
  have 1: "?nb = (fst ?nb, snd ?nb)" and 2: "?ok = (fst ?ok, snd ?ok)" by simp_all
  have up: "\<And>c w. loop_call c \<Longrightarrow> all_up c w = Inr w" by (simp add: all_up_def)
  from prelude_run[of all_up no_batch args_run "()" Map.empty, OF up] obtain s1 where
    p: "prelude (stub_env all_up no_batch) args_run (init_state () Map.empty) = (Inr (), s1)"
    by blast
  from empty_first_epoch_fails[OF e 1,
      of "checkpoint_state args_run () ()" False "''checkpoint_0011.pth.tar''" None] l
  have a0: "(fst ?nb, snd ?nb) =
              (case prelude (stub_env all_up no_batch) args_run (init_state () Map.empty) of
                 (Inr u, s1) \<Rightarrow> (Inl UnboundLocalError, s1)
               | (Inl e, s1) \<Rightarrow> (Inl e, s1))"
    and a1: "fin_view (trace (snd ?nb)) = []" and a2: "files (snd ?nb) = Map.empty"
    by blast+
  from a0 have "fst ?nb = Inl UnboundLocalError"
    unfolding p by simp
  with a1 a2 have a: "fst ?nb = Inl UnboundLocalError \<and> fin_view (trace (snd ?nb)) = []
           \<and> files (snd ?nb) = Map.empty"
    by blast
  have ok: "fst ?ok = Inr ()" by (rule train_simclr_run)
  from train_simclr_finish[OF 2] ok
  have "finish_ok (stub_env all_up one_batch) args_run Map.empty (trace (snd ?ok)) (files (snd ?ok))"
    by simp
  then have "(Save_checkpoint (checkpoint_state args_run () ()) False (checkpoint_name args_run), None)
       \<in> set (fin_view (trace (snd ?ok)))"
    by (auto simp: finish_ok_def)
  then have sv: "(Save_checkpoint (checkpoint_state args_run () ()) False ''checkpoint_0011.pth.tar'', None)
       \<in> set (trace (snd ?ok))"
    unfolding checkpoint_name_run by (rule fin_view_subset)
  from empty_first_epoch_fails[OF e 2,
      of "checkpoint_state args_run () ()" False "''checkpoint_0011.pth.tar''" None] sv
  have b: "train_loader (stub_env all_up one_batch) 0 \<noteq> []
     \<and> (\<exists>p. (Wandb_log p, None) \<in> set (trace (snd ?ok))
           \<and> map fst p = metric_keys \<and> global_step_of p = Some 0)"
    by blast
  from e l a sv b show ?thesis by blast
qed

end
